theory Spec2Isabelle
  imports Complex_Main
begin

section \<open>Python values and exceptions\<close>

text \<open>
  The service \<^verbatim>\<open>dbus-rngbridge.py\<close> polls the HTTP/JSON status API of a solar
  charge controller and publishes the decoded values on a property bus. The
  model below follows the class \<^verbatim>\<open>DbusRngbridgeService\<close> method by method.

  An exception is a value. Each constructor stands for a Python class together
  with its subclasses; \<open>OtherException\<close> stands for any subclass of
  \<^verbatim>\<open>Exception\<close> that is not a subclass of one of the classes named here.
  \<open>JSONDecodeError\<close> is what \<^verbatim>\<open>response.json()\<close> raises; it is a subclass of
  \<^verbatim>\<open>ValueError\<close>. \<open>ConnectionError\<close> is the builtin class,
  \<open>RequestsConnectionError\<close> and \<open>RequestsTimeout\<close> are the classes of
  \<^verbatim>\<open>requests.exceptions\<close>.
\<close>

datatype exn =
    ValueError string
  | JSONDecodeError
  | ConnectionError string
  | RequestsConnectionError
  | RequestsTimeout
  | KeyError string
  | TypeError
  | IndexError
  | OverflowError
  | OtherException string

text \<open>
  The first \<^verbatim>\<open>except\<close> clause of \<^verbatim>\<open>_update\<close>:
  \<^verbatim>\<open>except (ValueError, requests.exceptions.ConnectionError,
  requests.exceptions.Timeout, ConnectionError)\<close>.
\<close>

fun recoverable :: "exn \<Rightarrow> bool" where
  "recoverable (ValueError m) = True"
| "recoverable JSONDecodeError = True"
| "recoverable (ConnectionError m) = True"
| "recoverable RequestsConnectionError = True"
| "recoverable RequestsTimeout = True"
| "recoverable (KeyError k) = False"
| "recoverable TypeError = False"
| "recoverable IndexError = False"
| "recoverable OverflowError = False"
| "recoverable (OtherException m) = False"

text \<open>
  The values a decoded JSON document consists of, which are also the values the
  bus properties hold. Python integers are unbounded. The type \<open>'f\<close> is the type
  of Python floats; their arithmetic is a parameter of the model (a record of
  operations), so that no theorem depends on how IEEE doubles round.
\<close>

datatype 'f pyval =
    PNone
  | PBool bool
  | PInt int
  | PFloat 'f
  | PStr string
  | PList "'f pyval list"
  | PDict "(string \<times> 'f pyval) list"

record 'f float_ops =
  fl_lit :: "rat \<Rightarrow> 'f"  \<comment> \<open>the float denoted by a decimal literal\<close>
  fl_of_int :: "int \<Rightarrow> 'f option"  \<comment> \<open>\<^verbatim>\<open>float(i)\<close>; \<open>None\<close> is OverflowError\<close>
  fl_mul :: "'f \<Rightarrow> 'f \<Rightarrow> 'f"
  fl_div :: "'f \<Rightarrow> 'f \<Rightarrow> 'f"  \<comment> \<open>division by a nonzero float\<close>
  fl_add :: "'f \<Rightarrow> 'f \<Rightarrow> 'f"
  fl_mod :: "'f \<Rightarrow> 'f \<Rightarrow> 'f"  \<comment> \<open>remainder by a nonzero float\<close>
  fl_is_zero :: "'f \<Rightarrow> bool"
  fl_round :: "'f \<Rightarrow> nat \<Rightarrow> 'f"  \<comment> \<open>\<^verbatim>\<open>round(x, n)\<close>\<close>

text \<open>
  An instance for evaluating examples: floats as rationals with exact
  arithmetic. It agrees with Python on inputs whose values and results are
  exactly representable as doubles, such as \<^verbatim>\<open>40.0 * 5.0\<close> and
  \<^verbatim>\<open>123000 / 1000.0\<close>.
\<close>

definition exact_floats :: "rat float_ops" where
  "exact_floats =
     \<lparr>fl_lit = (\<lambda>q. q),
      fl_of_int = (\<lambda>i. Some (of_int i)),
      fl_mul = (\<lambda>x y. x * y),
      fl_div = (\<lambda>x y. x / y),
      fl_add = (\<lambda>x y. x + y),
      fl_mod = (\<lambda>x y. x - y * of_int \<lfloor>x / y\<rfloor>),
      fl_is_zero = (\<lambda>x. x = 0),
      fl_round =
        (\<lambda>x n. let y = x * 10 ^ n; f = \<lfloor>y\<rfloor>; r = y - of_int f
               in (if r < 1 / 2 \<or> (r = 1 / 2 \<and> even f) then of_int f else of_int (f + 1))
                  / 10 ^ n)\<rparr>"

text \<open>Truth value testing, as in \<^verbatim>\<open>if not json\<close>.\<close>

fun truthy :: "'f float_ops \<Rightarrow> 'f pyval \<Rightarrow> bool" where
  "truthy F PNone = False"
| "truthy F (PBool b) = b"
| "truthy F (PInt i) = (i \<noteq> 0)"
| "truthy F (PFloat x) = (\<not> fl_is_zero F x)"
| "truthy F (PStr s) = (s \<noteq> [])"
| "truthy F (PList xs) = (xs \<noteq> [])"
| "truthy F (PDict kvs) = (kvs \<noteq> [])"

text \<open>
  Subscription with a string key, \<^verbatim>\<open>v["k"]\<close>: a dict looks the key up and raises
  KeyError when it is missing; a list or a string wants an integer index, and
  the other values are not subscriptable: both raise TypeError.
\<close>

fun item :: "'f pyval \<Rightarrow> string \<Rightarrow> exn + 'f pyval" where
  "item (PDict kvs) k = (case map_of kvs k of None \<Rightarrow> Inl (KeyError k) | Some v \<Rightarrow> Inr v)"
| "item v k = Inl TypeError"

text \<open>\<^verbatim>\<open>state["a"]["b"]\<close>\<close>

definition item2 :: "'f pyval \<Rightarrow> string \<Rightarrow> string \<Rightarrow> exn + 'f pyval" where
  "item2 state a b = (case item state a of Inl e \<Rightarrow> Inl e | Inr v \<Rightarrow> item v b)"

text \<open>Integers and booleans (a subclass of \<^verbatim>\<open>int\<close>) can be used as integers.\<close>

fun as_int :: "'f pyval \<Rightarrow> int option" where
  "as_int (PInt i) = Some i"
| "as_int (PBool b) = Some (if b then 1 else 0)"
| "as_int v = None"

text \<open>
  Indexing a list of integers, \<^verbatim>\<open>xs[idx]\<close>: a negative index counts from the
  end, an index out of range raises IndexError, an index that is not an integer
  raises TypeError.
\<close>

definition list_item :: "int list \<Rightarrow> 'f pyval \<Rightarrow> exn + 'f pyval" where
  "list_item xs idx =
     (case as_int idx of
        None \<Rightarrow> Inl TypeError
      | Some i \<Rightarrow>
          (let n = int (length xs); j = (if i < 0 then i + n else i)
           in if 0 \<le> j \<and> j < n then Inr (PInt (xs ! nat j)) else Inl IndexError))"

text \<open>Sequence repetition: a count below 1 gives the empty sequence.\<close>

definition repeat :: "'a list \<Rightarrow> int \<Rightarrow> 'a list" where
  "repeat xs n = concat (replicate (nat n) xs)"

definition mul_float_int :: "'f float_ops \<Rightarrow> 'f \<Rightarrow> 'f pyval \<Rightarrow> exn + 'f pyval" where
  "mul_float_int F x v =
     (case as_int v of
        None \<Rightarrow> Inl TypeError
      | Some i \<Rightarrow> (case fl_of_int F i of
                    None \<Rightarrow> Inl OverflowError
                  | Some y \<Rightarrow> Inr (PFloat (fl_mul F x y))))"

definition int_mul_float :: "'f float_ops \<Rightarrow> 'f pyval \<Rightarrow> 'f \<Rightarrow> exn + 'f pyval" where
  "int_mul_float F v y =
     (case as_int v of
        None \<Rightarrow> Inl TypeError
      | Some i \<Rightarrow> (case fl_of_int F i of
                    None \<Rightarrow> Inl OverflowError
                  | Some x \<Rightarrow> Inr (PFloat (fl_mul F x y))))"

text \<open>
  The operator \<^verbatim>\<open>*\<close> on two decoded JSON values: numbers multiply (an integer
  meeting a float is converted first), a string or a list times an integer is
  repeated, anything else raises TypeError.
\<close>

fun py_mul :: "'f float_ops \<Rightarrow> 'f pyval \<Rightarrow> 'f pyval \<Rightarrow> exn + 'f pyval" where
  "py_mul F (PFloat x) (PFloat y) = Inr (PFloat (fl_mul F x y))"
| "py_mul F (PFloat x) b = mul_float_int F x b"
| "py_mul F a (PFloat y) = int_mul_float F a y"
| "py_mul F (PStr s) b =
     (case as_int b of None \<Rightarrow> Inl TypeError | Some n \<Rightarrow> Inr (PStr (repeat s n)))"
| "py_mul F (PList xs) b =
     (case as_int b of None \<Rightarrow> Inl TypeError | Some n \<Rightarrow> Inr (PList (repeat xs n)))"
| "py_mul F a (PStr s) =
     (case as_int a of None \<Rightarrow> Inl TypeError | Some n \<Rightarrow> Inr (PStr (repeat s n)))"
| "py_mul F a (PList xs) =
     (case as_int a of None \<Rightarrow> Inl TypeError | Some n \<Rightarrow> Inr (PList (repeat xs n)))"
| "py_mul F a b =
     (case as_int a of
        None \<Rightarrow> Inl TypeError
      | Some i \<Rightarrow> (case as_int b of None \<Rightarrow> Inl TypeError | Some j \<Rightarrow> Inr (PInt (i * j))))"

text \<open>
  \<^verbatim>\<open>v / y\<close> for a nonzero float \<open>y\<close> (the source divides by the literal
  \<^verbatim>\<open>1000.0\<close> only): an integer is converted to a float first.
\<close>

definition py_truediv :: "'f float_ops \<Rightarrow> 'f pyval \<Rightarrow> 'f \<Rightarrow> exn + 'f pyval" where
  "py_truediv F v y =
     (case v of
        PFloat x \<Rightarrow> Inr (PFloat (fl_div F x y))
      | _ \<Rightarrow> (case as_int v of
                None \<Rightarrow> Inl TypeError
              | Some i \<Rightarrow> (case fl_of_int F i of
                            None \<Rightarrow> Inl OverflowError
                          | Some x \<Rightarrow> Inr (PFloat (fl_div F x y)))))"

text \<open>
  \<^verbatim>\<open>v + n\<close> and \<^verbatim>\<open>v % n\<close> for an integer literal \<open>n\<close> (the source adds 1 and
  reduces modulo 256). The remainder is only ever taken of the result of the
  addition, which is an integer or a float. Python's \<^verbatim>\<open>%\<close> on integers takes
  the sign of the divisor, as \<open>mod\<close> on \<open>int\<close> does.
\<close>

definition py_add_int :: "'f float_ops \<Rightarrow> 'f pyval \<Rightarrow> int \<Rightarrow> exn + 'f pyval" where
  "py_add_int F v n =
     (case v of
        PFloat x \<Rightarrow> Inr (PFloat (fl_add F x (fl_lit F (of_int n))))
      | _ \<Rightarrow> (case as_int v of None \<Rightarrow> Inl TypeError | Some i \<Rightarrow> Inr (PInt (i + n))))"

definition py_mod_int :: "'f float_ops \<Rightarrow> 'f pyval \<Rightarrow> int \<Rightarrow> exn + 'f pyval" where
  "py_mod_int F v n =
     (case v of
        PFloat x \<Rightarrow> Inr (PFloat (fl_mod F x (fl_lit F (of_int n))))
      | _ \<Rightarrow> (case as_int v of None \<Rightarrow> Inl TypeError | Some i \<Rightarrow> Inr (PInt (i mod n))))"


text \<open>
  \<^verbatim>\<open>round(v, n)\<close> for a number of digits \<open>n\<close> that is not negative: an integer or a
  boolean is returned as the integer it is, a float is rounded, and the other
  values cannot be rounded: TypeError.
\<close>

definition py_round :: "'f float_ops \<Rightarrow> 'f pyval \<Rightarrow> nat \<Rightarrow> exn + 'f pyval" where
  "py_round F v n =
     (case v of
        PFloat x \<Rightarrow> Inr (PFloat (fl_round F x n))
      | _ \<Rightarrow> (case as_int v of None \<Rightarrow> Inl TypeError | Some i \<Rightarrow> Inr (PInt i)))"

section \<open>Configuration\<close>

text \<open>
  \<^verbatim>\<open>_getConfig\<close> parses \<^verbatim>\<open>config.ini\<close> with \<^verbatim>\<open>configparser\<close>. The parsed file is
  an input of the model: a map from section names to maps from option names to
  strings. \<^verbatim>\<open>config[section][option]\<close> raises KeyError for a missing section
  or option.
\<close>

type_synonym config = "string \<rightharpoonup> (string \<rightharpoonup> string)"

definition cfg_item :: "config \<Rightarrow> string \<Rightarrow> string \<Rightarrow> exn + string" where
  "cfg_item cfg sec opt =
     (case cfg sec of
        None \<Rightarrow> Inl (KeyError sec)
      | Some options \<Rightarrow> (case options opt of None \<Rightarrow> Inl (KeyError opt) | Some v \<Rightarrow> Inr v))"

text \<open>
  \<^verbatim>\<open>int(s)\<close> for a string, in base 10: surrounding whitespace is dropped, a sign
  may come first, and single underscores may separate digits. Strings are byte
  strings here, so only the ASCII whitespace and digits are recognised.
\<close>

definition is_space :: "char \<Rightarrow> bool" where
  "is_space c = ((of_char c :: nat) \<in> {9, 10, 11, 12, 13, 28, 29, 30, 31, 32})"

definition strip :: "string \<Rightarrow> string" where
  "strip s = rev (dropWhile is_space (rev (dropWhile is_space s)))"

definition digit_val :: "char \<Rightarrow> int option" where
  "digit_val c =
     (let k = (of_char c :: int) in if 48 \<le> k \<and> k \<le> 57 then Some (k - 48) else None)"

fun digits :: "string \<Rightarrow> int \<Rightarrow> int option" where
  "digits [] acc = Some acc"
| "digits (c # cs) acc =
     (if c = CHR ''_'' then
        (case cs of
           [] \<Rightarrow> None
         | d # ds \<Rightarrow> (case digit_val d of
                       None \<Rightarrow> None
                     | Some v \<Rightarrow> digits ds (acc * 10 + v)))
      else (case digit_val c of None \<Rightarrow> None | Some v \<Rightarrow> digits cs (acc * 10 + v)))"

definition unsigned :: "string \<Rightarrow> int option" where
  "unsigned s =
     (case s of
        [] \<Rightarrow> None
      | c # cs \<Rightarrow> (case digit_val c of None \<Rightarrow> None | Some v \<Rightarrow> digits cs v))"

definition py_int :: "string \<Rightarrow> exn + int" where
  "py_int s =
     (let t = strip s;
          r = (case t of
                 [] \<Rightarrow> None
               | c # cs \<Rightarrow>
                   if c = CHR ''-'' then map_option uminus (unsigned cs)
                   else if c = CHR ''+'' then unsigned cs
                   else unsigned t)
      in case r of
           None \<Rightarrow> Inl (ValueError ''invalid literal for int() with base 10'')
         | Some i \<Rightarrow> Inr i)"

text \<open>
  \<^verbatim>\<open>_getSignOfLifeInterval\<close>: an empty setting reads as 0.
\<close>

definition getSignOfLifeInterval :: "config \<Rightarrow> exn + int" where
  "getSignOfLifeInterval cfg =
     (case cfg_item cfg ''DEFAULT'' ''SignOfLifeLog'' of
        Inl e \<Rightarrow> Inl e
      | Inr value \<Rightarrow> if value = [] then Inr 0 else py_int value)"

definition getStatusUrl :: "config \<Rightarrow> exn + string" where
  "getStatusUrl cfg =
     (case cfg_item cfg ''DEFAULT'' ''AccessType'' of
        Inl e \<Rightarrow> Inl e
      | Inr accessType \<Rightarrow>
          if accessType = ''OnPremise'' then
            (case cfg_item cfg ''ONPREMISE'' ''Host'' of
               Inl e \<Rightarrow> Inl e
             | Inr host \<Rightarrow> Inr (''http://'' @ host @ ''/api/''))
          else Inl (ValueError (''AccessType '' @ accessType @ '' is not supported'')))"

section \<open>Fetching the device state\<close>

text \<open>
  What \<^verbatim>\<open>requests.get(url=url, timeout=5)\<close> does is an input of the model: it
  raises, or it returns a response. Of a response the code uses its truth
  value (\<^verbatim>\<open>response.ok\<close>: the status code is below 400) and
  \<^verbatim>\<open>response.json()\<close>, which returns the decoded body or raises when the body
  is not valid JSON (\<open>None\<close>).
\<close>

datatype 'f http_outcome =
    GetRaises exn
  | GetReturns bool "'f pyval option"

text \<open>
  The inputs of one cycle: the configuration file as it is read in this cycle,
  the behaviour of the HTTP client for each URL, and the reading of the clock
  (\<^verbatim>\<open>time.time()\<close>).
\<close>

record 'f env =
  config :: config
  http_get :: "string \<Rightarrow> 'f http_outcome"
  now :: 'f

definition requestData ::
  "'f float_ops \<Rightarrow> (string \<Rightarrow> 'f http_outcome) \<Rightarrow> string \<Rightarrow> exn + 'f pyval" where
  "requestData F get url =
     (case get url of
        GetRaises e \<Rightarrow> Inl e
      | GetReturns ok body \<Rightarrow>
          if \<not> ok then Inl (ConnectionError (''No response from RNGBridge - '' @ url))
          else (case body of
                  None \<Rightarrow> Inl JSONDecodeError
                | Some json \<Rightarrow>
                    if \<not> truthy F json
                    then Inl (ValueError ''Converting response to JSON failed'')
                    else Inr json))"

definition getRngBridgeConfig :: "'f float_ops \<Rightarrow> 'f env \<Rightarrow> exn + 'f pyval" where
  "getRngBridgeConfig F env =
     (case getStatusUrl (config env) of
        Inl e \<Rightarrow> Inl e
      | Inr url \<Rightarrow> requestData F (http_get env) (url @ ''config''))"

definition getRngBridgeState :: "'f float_ops \<Rightarrow> 'f env \<Rightarrow> exn + 'f pyval" where
  "getRngBridgeState F env =
     (case getStatusUrl (config env) of
        Inl e \<Rightarrow> Inl e
      | Inr url \<Rightarrow> requestData F (http_get env) (url @ ''state''))"

section \<open>The service and its property store\<close>

text \<open>
  The state of a \<^verbatim>\<open>DbusRngbridgeService\<close>: the property store
  \<^verbatim>\<open>self._dbusservice\<close>, a table from paths to current values; \<^verbatim>\<open>self._paths\<close>;
  \<^verbatim>\<open>self._lastUpdate\<close>; and, as the effects on the world outside the object,
  the timers registered with the main loop (period in ms and callback) and the
  severities of the log entries written.
\<close>

datatype callback = Update | SignOfLife

datatype level = Debug | Info | Critical

record 'f service =
  dbusservice :: "string \<rightharpoonup> 'f pyval"
  paths :: "(string \<times> 'f pyval) list"
  lastUpdate :: "'f pyval"
  timers :: "(int \<times> callback) list"
  logged :: "level list"

text \<open>
  A statement runs on the service and either completes (\<open>None\<close>) or raises; the
  effects it had before raising stay.
\<close>

type_synonym 'f stmt = "'f service \<Rightarrow> exn option \<times> 'f service"

fun run :: "'f stmt list \<Rightarrow> 'f stmt" where
  "run [] s = (None, s)"
| "run (c # cs) s = (case c s of (None, s') \<Rightarrow> run cs s' | (Some e, s') \<Rightarrow> (Some e, s'))"

text \<open>
  Modelled from the spec: item assignment and item access of \<^verbatim>\<open>VeDbusService\<close>,
  the property store of the bus client library, which the repository imports
  and does not contain. By the contract of the store, writing a registered path
  overwrites its value and always succeeds, and reading or writing a path that
  was never registered fails (KeyError); the text formatters play no part in
  the stored value. In \<^verbatim>\<open>self._dbusservice[p] = rhs\<close> the
  right-hand side is evaluated first; if it raises, nothing is written.
\<close>

definition setitem :: "string \<Rightarrow> exn + 'f pyval \<Rightarrow> 'f stmt" where
  "setitem p rhs s =
     (case rhs of
        Inl e \<Rightarrow> (Some e, s)
      | Inr v \<Rightarrow> (case dbusservice s p of
                    None \<Rightarrow> (Some (KeyError p), s)
                  | Some old \<Rightarrow> (None, s\<lparr>dbusservice := (dbusservice s)(p \<mapsto> v)\<rparr>)))"

definition getitem :: "'f service \<Rightarrow> string \<Rightarrow> exn + 'f pyval" where
  "getitem s p = (case dbusservice s p of None \<Rightarrow> Inl (KeyError p) | Some v \<Rightarrow> Inr v)"

text \<open>
  Modelled from the spec: a call of \<^verbatim>\<open>logging.debug\<close>, \<^verbatim>\<open>logging.info\<close> or
  \<^verbatim>\<open>logging.critical\<close> adds an entry of that severity and does not raise.
\<close>

definition logging :: "level \<Rightarrow> 'f stmt" where
  "logging l s = (None, s\<lparr>logged := logged s @ [l]\<rparr>)"

text \<open>
  A log entry that shows a property, as in
  \<^verbatim>\<open>logging.debug("...: %s" % (self._dbusservice[p]))\<close>: the property is read
  first.
\<close>

definition log_item :: "level \<Rightarrow> string \<Rightarrow> 'f stmt" where
  "log_item l p s = (case getitem s p of Inl e \<Rightarrow> (Some e, s) | Inr v \<Rightarrow> logging l s)"

text \<open>
  \<^verbatim>\<open>self._dbusservice["/UpdateIndex"] = (self._dbusservice["/UpdateIndex"] + 1) % 256\<close>:
  the value \<^verbatim>\<open>(v + 1) % 256\<close> and the statement.
\<close>

definition next_index :: "'f float_ops \<Rightarrow> 'f pyval \<Rightarrow> exn + 'f pyval" where
  "next_index F v = (case py_add_int F v 1 of Inl e \<Rightarrow> Inl e | Inr w \<Rightarrow> py_mod_int F w 256)"

definition increment_index :: "'f float_ops \<Rightarrow> 'f stmt" where
  "increment_index F s =
     setitem ''/UpdateIndex''
       (case getitem s ''/UpdateIndex'' of Inl e \<Rightarrow> Inl e | Inr v \<Rightarrow> next_index F v)
       s"

definition set_lastUpdate :: "'f pyval \<Rightarrow> 'f stmt" where
  "set_lastUpdate t s = (None, s\<lparr>lastUpdate := t\<rparr>)"

section \<open>One cycle: \<^verbatim>\<open>_update\<close>\<close>

definition state_map :: "int list" where
  "state_map = [0, 0, 3, 7, 4, 5, 2]"

text \<open>
  The nine assignments of the \<^verbatim>\<open>try\<close> block, in the order of the source: the
  path written and the value of the right-hand side, which depends on the
  fetched state only.
\<close>

definition projection :: "'f float_ops \<Rightarrow> 'f pyval \<Rightarrow> (string \<times> (exn + 'f pyval)) list" where
  "projection F state =
     [(''/Pv/V'', item2 state ''p'' ''vo''),
      (''/Yield/Power'',
         case item2 state ''p'' ''vo'' of
           Inl e \<Rightarrow> Inl e
         | Inr vo \<Rightarrow> (case item2 state ''p'' ''cu'' of Inl e \<Rightarrow> Inl e | Inr cu \<Rightarrow> py_mul F vo cu)),
      (''/State'',
         case item2 state ''c'' ''st'' of Inl e \<Rightarrow> Inl e | Inr st \<Rightarrow> list_item state_map st),
      (''/Yield/System'',
         case item2 state ''b'' ''to'' of
           Inl e \<Rightarrow> Inl e
         | Inr v \<Rightarrow> py_truediv F v (fl_lit F 1000)),
      (''/Yield/User'',
         case item2 state ''b'' ''ge'' of
           Inl e \<Rightarrow> Inl e
         | Inr v \<Rightarrow> py_truediv F v (fl_lit F 1000)),
      (''/Dc/0/Voltage'', item2 state ''b'' ''vo''),
      (''/Dc/0/Current'', item2 state ''b'' ''cu''),
      (''/Load/State'', item2 state ''o'' ''l''),
      (''/Load/I'', item2 state ''l'' ''cu'')]"

definition assign :: "string \<times> (exn + 'f pyval) \<Rightarrow> 'f stmt" where
  "assign a = setitem (fst a) (snd a)"

text \<open>The body of the \<^verbatim>\<open>try\<close> block.\<close>

definition try_block :: "'f float_ops \<Rightarrow> 'f env \<Rightarrow> 'f stmt" where
  "try_block F env s =
     (case getRngBridgeState F env of
        Inl e \<Rightarrow> (Some e, s)
      | Inr state \<Rightarrow>
          run (map assign (projection F state) @
               [log_item Debug ''/Yield/Power'',
                log_item Debug ''/Dc/0/Voltage'',
                log_item Debug ''/Dc/0/Current'',
                logging Debug,
                increment_index F,
                set_lastUpdate (PFloat (now env))]) s)"

text \<open>
  The handler of the first \<^verbatim>\<open>except\<close> clause: the values it writes, in the order
  of the source, and the handler itself.
\<close>

definition defaults :: "(string \<times> 'f pyval) list" where
  "defaults =
     [(''/Pv/V'', PInt 0),
      (''/Yield/Power'', PInt 0),
      (''/Yield/System'', PInt 0),
      (''/Yield/User'', PInt 0),
      (''/State'', PInt 0),
      (''/Dc/0/Voltage'', PInt 0),
      (''/Dc/0/Current'', PInt 0),
      (''/Load/State'', PBool False),
      (''/Load/I'', PInt 0)]"

definition reset :: "string \<times> 'f pyval \<Rightarrow> 'f stmt" where
  "reset a = setitem (fst a) (Inr (snd a))"

definition except_recoverable :: "'f float_ops \<Rightarrow> 'f stmt" where
  "except_recoverable F = run (logging Critical # map reset defaults @ [increment_index F])"

text \<open>
  \<^verbatim>\<open>_update\<close> returns \<^verbatim>\<open>True\<close>, unless an exception is raised inside the first
  handler, which no clause catches. The second clause, \<^verbatim>\<open>except Exception\<close>, only
  logs.
\<close>

definition update :: "'f float_ops \<Rightarrow> 'f env \<Rightarrow> 'f service \<Rightarrow> (exn + bool) \<times> 'f service" where
  "update F env s =
     (case try_block F env s of
        (None, s1) \<Rightarrow> (Inr True, s1)
      | (Some e, s1) \<Rightarrow>
          if recoverable e then
            (case except_recoverable F s1 of
               (None, s2) \<Rightarrow> (Inr True, s2)
             | (Some e', s2) \<Rightarrow> (Inl e', s2))
          else (Inr True, snd (logging Critical s1)))"

text \<open>How a cycle ends, by the clause that handles it.\<close>

datatype outcome = Success | RecoverableFault | UnhandledFault

definition cycle_outcome :: "'f float_ops \<Rightarrow> 'f env \<Rightarrow> 'f service \<Rightarrow> outcome" where
  "cycle_outcome F env s =
     (case fst (try_block F env s) of
        None \<Rightarrow> Success
      | Some e \<Rightarrow> if recoverable e then RecoverableFault else UnhandledFault)"

text \<open>
  Modelled from the spec: the main loop of the scheduler, which calls a timer's
  callback again for as long as it returns \<^verbatim>\<open>True\<close>. These are the cycles of
  \<^verbatim>\<open>_update\<close> on a list of inputs, one per tick.
\<close>

fun updates :: "'f float_ops \<Rightarrow> 'f env list \<Rightarrow> 'f service \<Rightarrow> (exn + bool) \<times> 'f service" where
  "updates F [] s = (Inr True, s)"
| "updates F (env # envs) s =
     (case update F env s of
        (Inr True, s') \<Rightarrow> updates F envs s'
      | r \<Rightarrow> r)"

text \<open>\<^verbatim>\<open>_signOfLife\<close> writes four log entries, one of which shows \<^verbatim>\<open>/Yield/Power\<close>.\<close>

definition signOfLife :: "'f service \<Rightarrow> (exn + bool) \<times> 'f service" where
  "signOfLife s =
     (case run [logging Info, logging Info, log_item Info ''/Yield/Power'', logging Info] s of
        (None, s') \<Rightarrow> (Inr True, s')
      | (Some e, s') \<Rightarrow> (Inl e, s'))"

text \<open>
  \<^verbatim>\<open>_handlechangedvalue\<close> logs the change and accepts it.
\<close>

definition handlechangedvalue :: "string \<Rightarrow> 'f pyval \<Rightarrow> 'f service \<Rightarrow> bool \<times> 'f service" where
  "handlechangedvalue path v s = (True, snd (logging Debug s))"

text \<open>
  Modelled from the spec: a write by an external bus client, which the store
  performs for a registered path that was added as writeable (the paths of
  \<^verbatim>\<open>self._paths\<close>), when the change callback accepts it.
\<close>

definition external_write :: "string \<Rightarrow> 'f pyval \<Rightarrow> 'f service \<Rightarrow> 'f service" where
  "external_write p v s =
     (if p \<in> set (map fst (paths s)) \<and> dbusservice s p \<noteq> None then
        (case handlechangedvalue p v s of
           (accept, s') \<Rightarrow> if accept then s'\<lparr>dbusservice := (dbusservice s')(p \<mapsto> v)\<rparr> else s')
      else s)"

section \<open>Start-up: \<^verbatim>\<open>__init__\<close> and \<^verbatim>\<open>main\<close>\<close>

text \<open>
  Modelled from the spec: \<^verbatim>\<open>VeDbusService.add_path\<close>, which registers a path
  with its initial value and fails when the path is registered already. The
  value is evaluated first.
\<close>

definition add_path :: "string \<Rightarrow> exn + 'f pyval \<Rightarrow> 'f stmt" where
  "add_path p rhs s =
     (case rhs of
        Inl e \<Rightarrow> (Some e, s)
      | Inr v \<Rightarrow> (case dbusservice s p of
                    None \<Rightarrow> (None, s\<lparr>dbusservice := (dbusservice s)(p \<mapsto> v)\<rparr>)
                  | Some old \<Rightarrow> (Some (OtherException ''DuplicatePath''), s)))"

definition add_initial :: "string \<times> 'f pyval \<Rightarrow> 'f stmt" where
  "add_initial a = add_path (fst a) (Inr (snd a))"

text \<open>
  Modelled from the spec: \<^verbatim>\<open>gobject.timeout_add\<close> of the scheduler, which
  registers a callback with a period in milliseconds. The model records the
  registration with the period it was given.
\<close>

definition timeout_add :: "exn + int \<Rightarrow> callback \<Rightarrow> 'f stmt" where
  "timeout_add interval cb s =
     (case interval of
        Inl e \<Rightarrow> (Some e, s)
      | Inr ms \<Rightarrow> (None, s\<lparr>timers := timers s @ [(ms, cb)]\<rparr>))"

text \<open>
  The constructor, with the default product and connection names. Its inputs
  are the configuration, the path of the script (\<^verbatim>\<open>__file__\<close>), the version of
  the interpreter and the \<open>paths\<close> argument. Registering the service name on
  the bus is not modelled. An exception leaves no service behind; until its
  assignment at the end, \<^verbatim>\<open>_lastUpdate\<close> does not exist, for which the service
  under construction holds \<open>PNone\<close>.

  First the management and mandatory paths, in the order of the source, each
  with the value it is created with; the serial number is read from the
  configuration when its path is added.
\<close>

definition mandatory_paths ::
  "'f float_ops \<Rightarrow> config \<Rightarrow> string \<Rightarrow> string \<Rightarrow> int \<Rightarrow> string \<Rightarrow> (string \<times> (exn + 'f pyval)) list"
  where
  "mandatory_paths F cfg file version deviceinstance customname =
     [(''/Mgmt/ProcessName'', Inr (PStr file)),
      (''/Mgmt/ProcessVersion'', Inr (PStr (''Version 1 running on Python '' @ version))),
      (''/Mgmt/Connection'', Inr (PStr ''RNGBridge HTTP JSON service'')),
      (''/DeviceInstance'', Inr (PInt deviceinstance)),
      (''/ProductId'', Inr (PInt 0)),
      (''/ProductName'', Inr (PStr ''RNGBridge'')),
      (''/CustomName'', Inr (PStr customname)),
      (''/Latency'', Inr PNone),
      (''/FirmwareVersion'', Inr (PFloat (fl_lit F (2 / 10)))),
      (''/HardwareVersion'', Inr (PInt 0)),
      (''/Connected'', Inr (PInt 1)),
      (''/Role'', Inr (PStr ''solarcharger'')),
      (''/Serial'',
         case cfg_item cfg ''DEFAULT'' ''Serial'' of Inl e \<Rightarrow> Inl e | Inr v \<Rightarrow> Inr (PStr v)),
      (''/UpdateIndex'', Inr (PInt 0)),
      (''/NrOfTrackers'', Inr (PInt 1))]"

definition add_mandatory :: "string \<times> (exn + 'f pyval) \<Rightarrow> 'f stmt" where
  "add_mandatory a = add_path (fst a) (snd a)"

definition init ::
  "'f float_ops \<Rightarrow> config \<Rightarrow> string \<Rightarrow> string \<Rightarrow> (string \<times> 'f pyval) list \<Rightarrow> exn + 'f service" where
  "init F cfg file version pths =
     (case cfg_item cfg ''DEFAULT'' ''DeviceInstance'' of
        Inl e \<Rightarrow> Inl e
      | Inr di \<Rightarrow>
     (case py_int di of
        Inl e \<Rightarrow> Inl e
      | Inr deviceinstance \<Rightarrow>
     (case cfg_item cfg ''DEFAULT'' ''CustomName'' of
        Inl e \<Rightarrow> Inl e
      | Inr customname \<Rightarrow>
     (case run
        ([logging Debug] @
         map add_mandatory (mandatory_paths F cfg file version deviceinstance customname) @
         map add_initial pths @
         [set_lastUpdate (PInt 0),
          timeout_add (Inr 2000) Update,
          timeout_add
            (case getSignOfLifeInterval cfg of Inl e \<Rightarrow> Inl e | Inr n \<Rightarrow> Inr (n * 60 * 1000))
            SignOfLife])
        \<lparr>dbusservice = Map.empty, paths = pths, lastUpdate = PNone, timers = [], logged = []\<rparr>
      of
        (None, s) \<Rightarrow> Inr s
      | (Some e, s) \<Rightarrow> Inl e))))"

text \<open>The \<open>paths\<close> argument that \<^verbatim>\<open>main\<close> passes: each path with its initial value.\<close>

definition main_paths :: "(string \<times> 'f pyval) list" where
  "main_paths =
     [(''/Pv/V'', PInt 0),
      (''/Yield/Power'', PInt 0),
      (''/Yield/System'', PInt 0),
      (''/Yield/User'', PInt 0),
      (''/State'', PInt 0),
      (''/Dc/0/Voltage'', PInt 0),
      (''/Dc/0/Current'', PInt 0),
      (''/Load/State'', PInt 0),
      (''/Load/I'', PInt 0)]"

text \<open>
  The text formatters that \<^verbatim>\<open>main\<close> defines and passes with the paths, such as
  \<^verbatim>\<open>str(round(v, 2)) + " KWh"\<close>. The text \<^verbatim>\<open>str(r) + suffix\<close> is kept as the
  value \<open>r\<close> that is shown and the suffix: how \<^verbatim>\<open>str\<close> writes a value is not
  modelled. A formatter is a function of the path and the value.
\<close>

datatype 'f rendering = Rendering "'f pyval" string

definition fmt_kwh :: "'f float_ops \<Rightarrow> string \<Rightarrow> 'f pyval \<Rightarrow> exn + 'f rendering" where
  "fmt_kwh F p v =
     (case py_round F v 2 of Inl e \<Rightarrow> Inl e | Inr r \<Rightarrow> Inr (Rendering r '' KWh''))"

definition fmt_a :: "'f float_ops \<Rightarrow> string \<Rightarrow> 'f pyval \<Rightarrow> exn + 'f rendering" where
  "fmt_a F p v =
     (case py_round F v 1 of Inl e \<Rightarrow> Inl e | Inr r \<Rightarrow> Inr (Rendering r '' A''))"

definition fmt_w :: "'f float_ops \<Rightarrow> string \<Rightarrow> 'f pyval \<Rightarrow> exn + 'f rendering" where
  "fmt_w F p v =
     (case py_round F v 1 of Inl e \<Rightarrow> Inl e | Inr r \<Rightarrow> Inr (Rendering r '' W''))"

definition fmt_v :: "'f float_ops \<Rightarrow> string \<Rightarrow> 'f pyval \<Rightarrow> exn + 'f rendering" where
  "fmt_v F p v =
     (case py_round F v 1 of Inl e \<Rightarrow> Inl e | Inr r \<Rightarrow> Inr (Rendering r '' V''))"

definition fmt_s :: "'f float_ops \<Rightarrow> string \<Rightarrow> 'f pyval \<Rightarrow> exn + 'f rendering" where
  "fmt_s F p v = Inr (Rendering v [])"

text \<open>The formatter that \<^verbatim>\<open>main\<close> gives each path.\<close>

definition main_textformats ::
  "'f float_ops \<Rightarrow> (string \<times> (string \<Rightarrow> 'f pyval \<Rightarrow> exn + 'f rendering)) list" where
  "main_textformats F =
     [(''/Pv/V'', fmt_v F),
      (''/Yield/Power'', fmt_w F),
      (''/Yield/System'', fmt_kwh F),
      (''/Yield/User'', fmt_kwh F),
      (''/State'', fmt_s F),
      (''/Dc/0/Voltage'', fmt_v F),
      (''/Dc/0/Current'', fmt_a F),
      (''/Load/State'', fmt_v F),
      (''/Load/I'', fmt_a F)]"

text \<open>
  Modelled from the spec: the text of a property, as the store renders it for a
  bus client. The store applies the formatter the path was added with to the
  path and its current value (a path added without a formatter shows the value
  as it is). Rendering reads the store and writes nothing.
\<close>

definition get_text :: "'f float_ops \<Rightarrow> 'f service \<Rightarrow> string \<Rightarrow> exn + 'f rendering" where
  "get_text F s p =
     (case getitem s p of
        Inl e \<Rightarrow> Inl e
      | Inr v \<Rightarrow> (case map_of (main_textformats F) p of
                    None \<Rightarrow> Inr (Rendering v [])
                  | Some format \<Rightarrow> format p v))"

text \<open>
  The paths that \<^verbatim>\<open>_update\<close> reads and writes are registered by the constructor
  and stay registered.
\<close>

definition registered :: "'f service \<Rightarrow> bool" where
  "registered s =
     list_all (\<lambda>p. dbusservice s p \<noteq> None)
       [''/UpdateIndex'', ''/Pv/V'', ''/Yield/Power'', ''/Yield/System'', ''/Yield/User'',
        ''/State'', ''/Dc/0/Voltage'', ''/Dc/0/Current'', ''/Load/State'', ''/Load/I'']"

text \<open>
  What holds of the service between cycles: the paths are registered and the
  update index is an integer from 0 to 255.
\<close>

definition invariant :: "'f service \<Rightarrow> bool" where
  "invariant s =
     (registered s \<and>
      (case dbusservice s ''/UpdateIndex'' of
         Some (PInt i) \<Rightarrow> 0 \<le> i \<and> i < 256
       | _ \<Rightarrow> False))"

text \<open>The fetch of a cycle raises an exception that the first clause catches.\<close>

definition fetch_fault :: "'f float_ops \<Rightarrow> 'f env \<Rightarrow> bool" where
  "fetch_fault F env =
     (case getRngBridgeState F env of Inl e \<Rightarrow> recoverable e | Inr state \<Rightarrow> False)"

section \<open>Example inputs\<close>

text \<open>
  A configuration, a device state (Scenario A of the specification) and a
  service whose properties hold values left over from earlier cycles and from
  external writes, with the update index about to wrap. A float \<open>PFloat q\<close>
  of the example stands for the double nearest to \<open>q\<close>.
\<close>

definition example_config :: config where
  "example_config =
     [''DEFAULT'' \<mapsto>
        [''AccessType'' \<mapsto> ''OnPremise'', ''SignOfLifeLog'' \<mapsto> ''10'',
         ''DeviceInstance'' \<mapsto> ''40'', ''CustomName'' \<mapsto> ''RNGBridge'',
         ''Serial'' \<mapsto> ''0000'', ''LogLevel'' \<mapsto> ''INFO''],
      ''ONPREMISE'' \<mapsto> [''Host'' \<mapsto> ''192.168.1.10'']]"

definition example_state :: "rat pyval" where
  "example_state =
     PDict
       [(''p'', PDict [(''vo'', PFloat 40), (''cu'', PFloat 5)]),
        (''c'', PDict [(''st'', PInt 3)]),
        (''b'', PDict [(''to'', PInt 123000), (''ge'', PInt 4500),
                       (''vo'', PFloat 26), (''cu'', PFloat (24 / 5))]),
        (''o'', PDict [(''l'', PBool True)]),
        (''l'', PDict [(''cu'', PFloat (6 / 5))])]"

text \<open>The device answers the state request with a document; or the request raises.\<close>

definition responding :: "rat pyval \<Rightarrow> rat env" where
  "responding json =
     \<lparr>config = example_config,
      http_get = (\<lambda>url. if url = ''http://192.168.1.10/api/state''
                         then GetReturns True (Some json)
                         else GetRaises RequestsConnectionError),
      now = 1700000000\<rparr>"

definition failing :: "exn \<Rightarrow> rat env" where
  "failing e =
     \<lparr>config = example_config, http_get = (\<lambda>url. GetRaises e), now = 1700000000\<rparr>"

definition example_service :: "rat service" where
  "example_service =
     \<lparr>dbusservice =
        [''/UpdateIndex'' \<mapsto> PInt 255,
         ''/Pv/V'' \<mapsto> PInt 99,
         ''/Yield/Power'' \<mapsto> PFloat 150,
         ''/Yield/System'' \<mapsto> PFloat 122,
         ''/Yield/User'' \<mapsto> PFloat 4,
         ''/State'' \<mapsto> PInt 4,
         ''/Dc/0/Voltage'' \<mapsto> PFloat 25,
         ''/Dc/0/Current'' \<mapsto> PFloat 6,
         ''/Load/State'' \<mapsto> PBool True,
         ''/Load/I'' \<mapsto> PFloat 1],
      paths = main_paths,
      lastUpdate = PFloat 1699999998,
      timers = [(2000, Update), (600000, SignOfLife)],
      logged = []\<rparr>"

text \<open>
  Device states of an unexpected shape: one that stops after the PV readings,
  one without the PV voltage, and one whose charge state code is negative.
\<close>

definition partial_state :: "rat pyval" where
  "partial_state = PDict [(''p'', PDict [(''vo'', PFloat 40), (''cu'', PFloat 5)])]"

definition headless_state :: "rat pyval" where
  "headless_state =
     PDict
       [(''p'', PDict [(''cu'', PFloat 5)]),
        (''c'', PDict [(''st'', PInt 3)]),
        (''b'', PDict [(''to'', PInt 123000), (''ge'', PInt 4500),
                       (''vo'', PFloat 26), (''cu'', PFloat (24 / 5))]),
        (''o'', PDict [(''l'', PBool True)]),
        (''l'', PDict [(''cu'', PFloat (6 / 5))])]"

definition coded_state :: "int \<Rightarrow> rat pyval" where
  "coded_state d =
     PDict
       [(''p'', PDict [(''vo'', PFloat 40), (''cu'', PFloat 5)]),
        (''c'', PDict [(''st'', PInt d)]),
        (''b'', PDict [(''to'', PInt 123000), (''ge'', PInt 4500),
                       (''vo'', PFloat 26), (''cu'', PFloat (24 / 5))]),
        (''o'', PDict [(''l'', PBool True)]),
        (''l'', PDict [(''cu'', PFloat (6 / 5))])]"

text \<open>
  A state whose PV voltage is 12.345 and whose lifetime yield is the raw 12345.
\<close>

definition fine_state :: "rat pyval" where
  "fine_state =
     PDict
       [(''p'', PDict [(''vo'', PFloat (12345 / 1000)), (''cu'', PInt 2)]),
        (''c'', PDict [(''st'', PInt 3)]),
        (''b'', PDict [(''to'', PInt 12345), (''ge'', PInt 4500),
                       (''vo'', PFloat 26), (''cu'', PFloat (24 / 5))]),
        (''o'', PDict [(''l'', PBool True)]),
        (''l'', PDict [(''cu'', PFloat (6 / 5))])]"

text \<open>A configuration whose sign-of-life interval is 0.\<close>

definition silent_config :: config where
  "silent_config =
     [''DEFAULT'' \<mapsto>
        [''AccessType'' \<mapsto> ''OnPremise'', ''SignOfLifeLog'' \<mapsto> ''0'',
         ''DeviceInstance'' \<mapsto> ''40'', ''CustomName'' \<mapsto> ''RNGBridge'',
         ''Serial'' \<mapsto> ''0000'', ''LogLevel'' \<mapsto> ''INFO''],
      ''ONPREMISE'' \<mapsto> [''Host'' \<mapsto> ''192.168.1.10'']]"

section \<open>Properties of the cycle\<close>

text \<open>Running a sequence of statements.\<close>

lemma run_append:
  "run (xs @ ys) s = (case run xs s of (None, s') \<Rightarrow> run ys s' | (Some e, s') \<Rightarrow> (Some e, s'))"
  by (induction xs arbitrary: s) (auto split: prod.splits option.splits)

text \<open>
  None of the exceptions that evaluating a right-hand side of the \<^verbatim>\<open>try\<close> block
  can raise is caught by the first \<^verbatim>\<open>except\<close> clause.
\<close>

lemma item_exn: "item v k = Inl e \<Longrightarrow> \<not> recoverable e"
  by (cases v) (auto split: option.splits)

lemma item2_exn: "item2 v a b = Inl e \<Longrightarrow> \<not> recoverable e"
  by (auto simp: item2_def split: sum.splits dest: item_exn)

lemma py_mul_exn: "py_mul F a b = Inl e \<Longrightarrow> \<not> recoverable e"
  by (induction F a b rule: py_mul.induct)
    (auto simp: mul_float_int_def int_mul_float_def split: option.splits)

lemma list_item_exn: "list_item xs v = Inl e \<Longrightarrow> \<not> recoverable e"
  by (auto simp: list_item_def Let_def split: option.splits if_splits)

lemma py_truediv_exn: "py_truediv F v y = Inl e \<Longrightarrow> \<not> recoverable e"
  by (auto simp: py_truediv_def split: pyval.splits option.splits)

lemma py_add_int_exn: "py_add_int F v n = Inl e \<Longrightarrow> \<not> recoverable e"
  by (auto simp: py_add_int_def split: pyval.splits option.splits)

lemma py_mod_int_exn: "py_mod_int F v n = Inl e \<Longrightarrow> \<not> recoverable e"
  by (auto simp: py_mod_int_def split: pyval.splits option.splits)

lemma projection_rhs_exn:
  "\<forall>a \<in> set (projection F state). \<forall>e. snd a = Inl e \<longrightarrow> \<not> recoverable e"
  unfolding projection_def
  by (simp, intro conjI allI impI)
    (auto split: sum.splits dest: item2_exn py_mul_exn list_item_exn py_truediv_exn)

lemma projection_exn: "(p, Inl e) \<in> set (projection F state) \<Longrightarrow> \<not> recoverable e"
  using projection_rhs_exn [of F state] by force

text \<open>
  The nine assignments: what a run of them leaves unchanged, what it has written
  when it completes and when it raises.
\<close>

lemma setitem_cases:
  "setitem p rhs s = (r, s') \<Longrightarrow>
     (r = None \<and> (\<exists>v old. rhs = Inr v \<and> dbusservice s p = Some old \<and>
         s' = s\<lparr>dbusservice := (dbusservice s)(p \<mapsto> v)\<rparr>))
   \<or> (s' = s \<and> ((\<exists>e. rhs = Inl e \<and> r = Some e) \<or>
         (\<exists>v. rhs = Inr v \<and> dbusservice s p = None \<and> r = Some (KeyError p))))"
  by (auto simp: setitem_def split: sum.splits option.splits)

lemma assigns_frame:
  "run (map assign as) s = (r, s') \<Longrightarrow>
     paths s' = paths s \<and> lastUpdate s' = lastUpdate s \<and> timers s' = timers s \<and>
     logged s' = logged s \<and>
     (\<forall>p. p \<notin> fst ` set as \<longrightarrow> dbusservice s' p = dbusservice s p) \<and>
     (\<forall>p. (dbusservice s' p = None) = (dbusservice s p = None))"
proof (induction as arbitrary: s)
  case Nil
  then show ?case by simp
next
  case (Cons a as)
  obtain r0 s0 where a: "assign a s = (r0, s0)" by (cases "assign a s")
  then have c: "setitem (fst a) (snd a) s = (r0, s0)" by (simp add: assign_def)
  show ?case
  proof (cases r0)
    case None
    with Cons.prems a have "run (map assign as) s0 = (r, s')" by simp
    from Cons.IH [OF this] setitem_cases [OF c] None show ?thesis
      by (auto split: if_splits)
  next
    case (Some e)
    with Cons.prems a have "s' = s0" by simp
    with setitem_cases [OF c] Some show ?thesis by auto
  qed
qed

lemma assigns_written:
  "run (map assign as) s = (r, s') \<Longrightarrow>
     dbusservice s' p = dbusservice s p \<or> (\<exists>v. (p, Inr v) \<in> set as \<and> dbusservice s' p = Some v)"
proof (induction as arbitrary: s)
  case Nil
  then show ?case by simp
next
  case (Cons a as)
  obtain r0 s0 where a: "assign a s = (r0, s0)" by (cases "assign a s")
  then have c: "setitem (fst a) (snd a) s = (r0, s0)" by (simp add: assign_def)
  show ?case
  proof (cases r0)
    case None
    with Cons.prems a have "run (map assign as) s0 = (r, s')" by simp
    from Cons.IH [OF this] setitem_cases [OF c] None show ?thesis
      by (cases a) (auto split: if_splits)
  next
    case (Some e)
    with Cons.prems a have "s' = s0" by simp
    with setitem_cases [OF c] Some show ?thesis by auto
  qed
qed

lemma assigns_None:
  "run (map assign as) s = (None, s') \<Longrightarrow> distinct (map fst as) \<Longrightarrow> (p, rhs) \<in> set as \<Longrightarrow>
     \<exists>v. rhs = Inr v \<and> dbusservice s' p = Some v"
proof (induction as arbitrary: s)
  case Nil
  then show ?case by simp
next
  case (Cons a as)
  obtain r0 s0 where a: "assign a s = (r0, s0)" by (cases "assign a s")
  then have c: "setitem (fst a) (snd a) s = (r0, s0)" by (simp add: assign_def)
  from Cons.prems(1) a have r0: "r0 = None" and rest: "run (map assign as) s0 = (None, s')"
    by (auto split: option.splits)
  show ?case
  proof (cases "a = (p, rhs)")
    case True
    with Cons.prems(2) have "p \<notin> fst ` set as" by auto
    with assigns_frame [OF rest] have "dbusservice s' p = dbusservice s0 p" by simp
    with setitem_cases [OF c] r0 True show ?thesis by auto
  next
    case False
    with Cons.prems have "(p, rhs) \<in> set as" "distinct (map fst as)" by auto
    with Cons.IH [OF rest] show ?thesis by simp
  qed
qed

lemma assigns_Some:
  "run (map assign as) s = (Some e, s') \<Longrightarrow>
     (\<exists>p. (p, Inl e) \<in> set as) \<or> (\<exists>p. e = KeyError p)"
proof (induction as arbitrary: s)
  case Nil
  then show ?case by simp
next
  case (Cons a as)
  obtain r0 s0 where a: "assign a s = (r0, s0)" by (cases "assign a s")
  then have c: "setitem (fst a) (snd a) s = (r0, s0)" by (simp add: assign_def)
  show ?case
  proof (cases r0)
    case None
    with Cons.prems a have "run (map assign as) s0 = (Some e, s')" by simp
    from Cons.IH [OF this] show ?thesis by auto
  next
    case (Some e0)
    with Cons.prems a have "e0 = e" by simp
    with setitem_cases [OF c] Some show ?thesis by (cases a) auto
  qed
qed


text \<open>The \<^verbatim>\<open>try\<close> block on a state all of whose right-hand sides evaluate.\<close>

lemma setitem_registered:
  "dbusservice s p \<noteq> None \<Longrightarrow>
     setitem p (Inr v) s = (None, s\<lparr>dbusservice := (dbusservice s)(p \<mapsto> v)\<rparr>)"
  by (auto simp: setitem_def)

lemma run_projection:
  assumes "item2 state ''p'' ''vo'' = Inr vo"
    and "item2 state ''p'' ''cu'' = Inr cu"
    and "py_mul F vo cu = Inr pw"
    and "item2 state ''c'' ''st'' = Inr st"
    and "list_item state_map st = Inr pub"
    and "item2 state ''b'' ''to'' = Inr tot"
    and "py_truediv F tot (fl_lit F 1000) = Inr ysys"
    and "item2 state ''b'' ''ge'' = Inr ge"
    and "py_truediv F ge (fl_lit F 1000) = Inr yusr"
    and "item2 state ''b'' ''vo'' = Inr bvo"
    and "item2 state ''b'' ''cu'' = Inr bcu"
    and "item2 state ''o'' ''l'' = Inr ld"
    and "item2 state ''l'' ''cu'' = Inr lcu"
    and "registered s"
  shows "run (map assign (projection F state)) s =
     (None, s\<lparr>dbusservice := (dbusservice s)
        (''/Pv/V'' \<mapsto> vo, ''/Yield/Power'' \<mapsto> pw, ''/State'' \<mapsto> pub,
         ''/Yield/System'' \<mapsto> ysys, ''/Yield/User'' \<mapsto> yusr,
         ''/Dc/0/Voltage'' \<mapsto> bvo, ''/Dc/0/Current'' \<mapsto> bcu,
         ''/Load/State'' \<mapsto> ld, ''/Load/I'' \<mapsto> lcu)\<rparr>)"
  using assms
  by (simp add: projection_def assign_def setitem_registered registered_def)

lemma run_tail:
  assumes "dbusservice s ''/UpdateIndex'' = Some (PInt i)"
    and "dbusservice s ''/Yield/Power'' \<noteq> None"
    and "dbusservice s ''/Dc/0/Voltage'' \<noteq> None"
    and "dbusservice s ''/Dc/0/Current'' \<noteq> None"
  shows "run [log_item Debug ''/Yield/Power'', log_item Debug ''/Dc/0/Voltage'',
              log_item Debug ''/Dc/0/Current'', logging Debug, increment_index F,
              set_lastUpdate t] s =
     (None, s\<lparr>dbusservice := (dbusservice s)(''/UpdateIndex'' \<mapsto> PInt ((i + 1) mod 256)),
              lastUpdate := t, logged := logged s @ [Debug, Debug, Debug, Debug]\<rparr>)"
  using assms
  by (auto simp: log_item_def getitem_def logging_def increment_index_def next_index_def
      py_add_int_def py_mod_int_def set_lastUpdate_def setitem_def)


lemma try_block_success:
  assumes "getRngBridgeState F env = Inr state"
    and "item2 state ''p'' ''vo'' = Inr vo"
    and "item2 state ''p'' ''cu'' = Inr cu"
    and "py_mul F vo cu = Inr pw"
    and "item2 state ''c'' ''st'' = Inr st"
    and "list_item state_map st = Inr pub"
    and "item2 state ''b'' ''to'' = Inr tot"
    and "py_truediv F tot (fl_lit F 1000) = Inr ysys"
    and "item2 state ''b'' ''ge'' = Inr ge"
    and "py_truediv F ge (fl_lit F 1000) = Inr yusr"
    and "item2 state ''b'' ''vo'' = Inr bvo"
    and "item2 state ''b'' ''cu'' = Inr bcu"
    and "item2 state ''o'' ''l'' = Inr ld"
    and "item2 state ''l'' ''cu'' = Inr lcu"
    and "registered s"
    and "dbusservice s ''/UpdateIndex'' = Some (PInt i)"
  shows "try_block F env s =
     (None,
      s\<lparr>dbusservice := (dbusservice s)
           (''/Pv/V'' \<mapsto> vo, ''/Yield/Power'' \<mapsto> pw, ''/State'' \<mapsto> pub,
            ''/Yield/System'' \<mapsto> ysys, ''/Yield/User'' \<mapsto> yusr,
            ''/Dc/0/Voltage'' \<mapsto> bvo, ''/Dc/0/Current'' \<mapsto> bcu,
            ''/Load/State'' \<mapsto> ld, ''/Load/I'' \<mapsto> lcu,
            ''/UpdateIndex'' \<mapsto> PInt ((i + 1) mod 256)),
         lastUpdate := PFloat (now env),
         logged := logged s @ [Debug, Debug, Debug, Debug]\<rparr>)"
proof -
  let ?s1 = "s\<lparr>dbusservice := (dbusservice s)
        (''/Pv/V'' \<mapsto> vo, ''/Yield/Power'' \<mapsto> pw, ''/State'' \<mapsto> pub,
         ''/Yield/System'' \<mapsto> ysys, ''/Yield/User'' \<mapsto> yusr,
         ''/Dc/0/Voltage'' \<mapsto> bvo, ''/Dc/0/Current'' \<mapsto> bcu,
         ''/Load/State'' \<mapsto> ld, ''/Load/I'' \<mapsto> lcu)\<rparr>"
  have writes: "run (map assign (projection F state)) s = (None, ?s1)"
    by (rule run_projection) fact+
  have index: "dbusservice ?s1 ''/UpdateIndex'' = Some (PInt i)"
    using assms(16) by simp
  have rest: "run [log_item Debug ''/Yield/Power'', log_item Debug ''/Dc/0/Voltage'',
                  log_item Debug ''/Dc/0/Current'', logging Debug, increment_index F,
                  set_lastUpdate (PFloat (now env))] ?s1 =
     (None, ?s1\<lparr>dbusservice := (dbusservice ?s1)(''/UpdateIndex'' \<mapsto> PInt ((i + 1) mod 256)),
              lastUpdate := PFloat (now env),
              logged := logged ?s1 @ [Debug, Debug, Debug, Debug]\<rparr>)"
    by (rule run_tail [OF index]) simp_all
  have "try_block F env s =
     (None, ?s1\<lparr>dbusservice := (dbusservice ?s1)(''/UpdateIndex'' \<mapsto> PInt ((i + 1) mod 256)),
              lastUpdate := PFloat (now env),
              logged := logged ?s1 @ [Debug, Debug, Debug, Debug]\<rparr>)"
    unfolding try_block_def run_append by (simp only: assms(1) writes rest sum.case prod.case option.case)
  then show ?thesis by simp
qed

text \<open>The example inputs.\<close>

lemma example_fetch:
  "getRngBridgeState exact_floats (responding json) =
     (if truthy exact_floats json then Inr json
      else Inl (ValueError ''Converting response to JSON failed''))"
  by (simp add: getRngBridgeState_def getStatusUrl_def cfg_item_def example_config_def
      responding_def requestData_def)

lemma example_registered: "registered example_service"
  by (simp add: registered_def example_service_def)

text \<open>
  The \<^verbatim>\<open>try\<close> block in general: what it has done when it completes, and when
  it raises after the fetch has returned a state.
\<close>

lemma projection_paths:
  "map fst (projection F state) =
     [''/Pv/V'', ''/Yield/Power'', ''/State'', ''/Yield/System'', ''/Yield/User'',
      ''/Dc/0/Voltage'', ''/Dc/0/Current'', ''/Load/State'', ''/Load/I'']"
  by (simp add: projection_def)

lemma projection_distinct: "distinct (map fst (projection F state))"
  by (simp add: projection_paths)

lemma index_not_projected: "''/UpdateIndex'' \<notin> fst ` set (projection F state)"
proof -
  have "''/UpdateIndex'' \<notin> set (map fst (projection F state))"
    by (simp add: projection_paths)
  then show ?thesis by simp
qed

lemma next_index_exn: "next_index F v = Inl e \<Longrightarrow> \<not> recoverable e"
  by (auto simp: next_index_def split: sum.splits dest: py_add_int_exn py_mod_int_exn)

lemma log_item_cases:
  "log_item l p s = (r, s') \<Longrightarrow>
     (r = None \<and> s' = s\<lparr>logged := logged s @ [l]\<rparr>) \<or> (r = Some (KeyError p) \<and> s' = s)"
  by (auto simp: log_item_def getitem_def logging_def split: option.splits)

lemma increment_index_cases:
  "increment_index F s = (r, s') \<Longrightarrow>
     (r = None \<and> (\<exists>v w. dbusservice s ''/UpdateIndex'' = Some v \<and> next_index F v = Inr w \<and>
         s' = s\<lparr>dbusservice := (dbusservice s)(''/UpdateIndex'' \<mapsto> w)\<rparr>))
   \<or> (\<exists>e. r = Some e \<and> \<not> recoverable e \<and> s' = s)"
  by (auto simp: increment_index_def getitem_def
      dest!: setitem_cases dest: next_index_exn split: option.splits)

lemma tail_cases:
  assumes "run [log_item Debug a, log_item Debug b, log_item Debug c, logging Debug,
                increment_index F, set_lastUpdate t] s = (r, s')"
  shows "paths s' = paths s \<and> timers s' = timers s \<and>
     (case r of
        None \<Rightarrow>
          lastUpdate s' = t \<and>
          (\<exists>v w. dbusservice s ''/UpdateIndex'' = Some v \<and> next_index F v = Inr w \<and>
             dbusservice s' = (dbusservice s)(''/UpdateIndex'' \<mapsto> w))
      | Some e \<Rightarrow>
          \<not> recoverable e \<and> dbusservice s' = dbusservice s \<and> lastUpdate s' = lastUpdate s)"
proof -
  obtain r1 s1 where 1: "log_item Debug a s = (r1, s1)" by (cases "log_item Debug a s")
  obtain r2 s2 where 2: "log_item Debug b s1 = (r2, s2)" by (cases "log_item Debug b s1")
  obtain r3 s3 where 3: "log_item Debug c s2 = (r3, s3)" by (cases "log_item Debug c s2")
  obtain r4 s4 where 4: "increment_index F (snd (logging Debug s3)) = (r4, s4)"
    by (cases "increment_index F (snd (logging Debug s3))")
  from log_item_cases [OF 1] log_item_cases [OF 2] log_item_cases [OF 3]
    increment_index_cases [OF 4] assms 1 2 3 4
  show ?thesis
    by (auto simp: logging_def set_lastUpdate_def split: option.splits)
qed


lemma try_block_fetch_failed:
  "getRngBridgeState F env = Inl e \<Longrightarrow> try_block F env s = (Some e, s)"
  by (simp add: try_block_def)

lemma try_block_cases:
  assumes tb: "try_block F env s = (r, s')"
    and fetch: "getRngBridgeState F env = Inr state"
  shows "paths s' = paths s \<and> timers s' = timers s \<and>
     (\<forall>p. (dbusservice s' p = None) = (dbusservice s p = None)) \<and>
     (\<forall>p. p \<noteq> ''/UpdateIndex'' \<longrightarrow>
        dbusservice s' p = dbusservice s p \<or>
        (\<exists>v. (p, Inr v) \<in> set (projection F state) \<and> dbusservice s' p = Some v)) \<and>
     (case r of
        None \<Rightarrow>
          lastUpdate s' = PFloat (now env) \<and>
          (\<forall>p rhs. (p, rhs) \<in> set (projection F state) \<longrightarrow>
             (\<exists>v. rhs = Inr v \<and> dbusservice s' p = Some v)) \<and>
          (\<exists>v w. dbusservice s ''/UpdateIndex'' = Some v \<and> next_index F v = Inr w \<and>
             dbusservice s' ''/UpdateIndex'' = Some w)
      | Some e \<Rightarrow>
          \<not> recoverable e \<and> dbusservice s' ''/UpdateIndex'' = dbusservice s ''/UpdateIndex'' \<and>
          lastUpdate s' = lastUpdate s)"
proof -
  let ?tail = "[log_item Debug ''/Yield/Power'', log_item Debug ''/Dc/0/Voltage'',
                log_item Debug ''/Dc/0/Current'', logging Debug, increment_index F,
                set_lastUpdate (PFloat (now env))]"
  obtain r1 s1 where a: "run (map assign (projection F state)) s = (r1, s1)"
    by (cases "run (map assign (projection F state)) s")
  note fr = assigns_frame [OF a]
  have idx: "dbusservice s1 ''/UpdateIndex'' = dbusservice s ''/UpdateIndex''"
    using fr index_not_projected [of F state] by blast
  have wr: "dbusservice s1 p = dbusservice s p \<or>
      (\<exists>v. (p, Inr v) \<in> set (projection F state) \<and> dbusservice s1 p = Some v)" for p
    by (rule assigns_written [OF a])
  show ?thesis
  proof (cases r1)
    case (Some e)
    with tb fetch a have r: "r = Some e" and s': "s' = s1"
      by (simp_all add: try_block_def run_append)
    from a Some have "run (map assign (projection F state)) s = (Some e, s1)" by simp
    from assigns_Some [OF this] have "\<not> recoverable e"
      by (auto dest: projection_exn)
    with r s' fr idx wr show ?thesis by auto
  next
    case None
    with tb fetch a have t: "run ?tail s1 = (r, s')"
      by (simp add: try_block_def run_append)
    note tc = tail_cases [OF t]
    show ?thesis
    proof (cases r)
      case (Some e)
      with tc have "\<not> recoverable e" "dbusservice s' = dbusservice s1"
        "lastUpdate s' = lastUpdate s1" "paths s' = paths s1" "timers s' = timers s1"
        by simp_all
      with Some fr idx wr show ?thesis by auto
    next
      case rNone: None
      with tc obtain v w where vw: "dbusservice s1 ''/UpdateIndex'' = Some v"
        "next_index F v = Inr w" "dbusservice s' = (dbusservice s1)(''/UpdateIndex'' \<mapsto> w)"
        and l: "lastUpdate s' = PFloat (now env)" "paths s' = paths s1" "timers s' = timers s1"
        by auto
      from a None have a': "run (map assign (projection F state)) s = (None, s1)" by simp
      have written: "\<exists>v. rhs = Inr v \<and> dbusservice s' p = Some v"
        if "(p, rhs) \<in> set (projection F state)" for p rhs
      proof -
        from that have "p \<noteq> ''/UpdateIndex''"
          using index_not_projected [of F state] by force
        with assigns_None [OF a' projection_distinct that] vw(3) show ?thesis by simp
      qed
      have dom: "(dbusservice s' p = None) = (dbusservice s p = None)" for p
        using fr vw idx by (cases "p = ''/UpdateIndex''") auto
      have part: "dbusservice s' p = dbusservice s p \<or>
          (\<exists>v. (p, Inr v) \<in> set (projection F state) \<and> dbusservice s' p = Some v)"
        if "p \<noteq> ''/UpdateIndex''" for p
        using wr [of p] vw(3) that by simp
      from rNone l fr vw idx written dom part show ?thesis by auto
    qed
  qed
qed

text \<open>The first handler, and cycles whose fetch raises.\<close>

lemma except_recoverable_registered:
  assumes "registered s" and "dbusservice s ''/UpdateIndex'' = Some (PInt i)"
  shows "except_recoverable F s =
     (None, s\<lparr>dbusservice := (dbusservice s)
        (''/Pv/V'' \<mapsto> PInt 0, ''/Yield/Power'' \<mapsto> PInt 0, ''/Yield/System'' \<mapsto> PInt 0,
         ''/Yield/User'' \<mapsto> PInt 0, ''/State'' \<mapsto> PInt 0, ''/Dc/0/Voltage'' \<mapsto> PInt 0,
         ''/Dc/0/Current'' \<mapsto> PInt 0, ''/Load/State'' \<mapsto> PBool False, ''/Load/I'' \<mapsto> PInt 0,
         ''/UpdateIndex'' \<mapsto> PInt ((i + 1) mod 256)),
        logged := logged s @ [Critical]\<rparr>)"
  using assms
  by (simp add: except_recoverable_def defaults_def reset_def logging_def setitem_registered
      registered_def increment_index_def getitem_def next_index_def py_add_int_def
      py_mod_int_def)


lemma update_fetch_fault:
  assumes "registered s" and "dbusservice s ''/UpdateIndex'' = Some (PInt i)"
    and "getRngBridgeState F env = Inl e" and "recoverable e"
  shows "update F env s =
     (Inr True,
      s\<lparr>dbusservice := (dbusservice s)
         (''/Pv/V'' \<mapsto> PInt 0, ''/Yield/Power'' \<mapsto> PInt 0, ''/Yield/System'' \<mapsto> PInt 0,
          ''/Yield/User'' \<mapsto> PInt 0, ''/State'' \<mapsto> PInt 0, ''/Dc/0/Voltage'' \<mapsto> PInt 0,
          ''/Dc/0/Current'' \<mapsto> PInt 0, ''/Load/State'' \<mapsto> PBool False, ''/Load/I'' \<mapsto> PInt 0,
          ''/UpdateIndex'' \<mapsto> PInt ((i + 1) mod 256)),
        logged := logged s @ [Critical]\<rparr>)"
  using assms
  by (simp add: update_def try_block_fetch_failed except_recoverable_registered)

lemma outcome_fetch_failed:
  "getRngBridgeState F env = Inl e \<Longrightarrow>
     cycle_outcome F env s = (if recoverable e then RecoverableFault else UnhandledFault)"
  by (simp add: cycle_outcome_def try_block_fetch_failed)

lemma outcome_fetched:
  "getRngBridgeState F env = Inr state \<Longrightarrow> cycle_outcome F env s \<noteq> RecoverableFault"
proof -
  assume fetch: "getRngBridgeState F env = Inr state"
  obtain r s' where tb: "try_block F env s = (r, s')" by (cases "try_block F env s")
  from try_block_cases [OF tb fetch] tb show ?thesis
    by (cases r) (auto simp: cycle_outcome_def)
qed

lemma recoverable_iff_fetch_fault:
  "(cycle_outcome F env s = RecoverableFault) = fetch_fault F env"
  by (cases "getRngBridgeState F env")
    (auto simp: fetch_fault_def outcome_fetch_failed dest: outcome_fetched)

lemma update_unhandled:
  assumes "try_block F env s = (Some e, s')" and "\<not> recoverable e"
  shows "update F env s = (Inr True, s'\<lparr>logged := logged s' @ [Critical]\<rparr>)"
  using assms by (simp add: update_def logging_def)

lemma next_index_int: "next_index F (PInt i) = Inr (PInt ((i + 1) mod 256))"
  by (simp add: next_index_def py_add_int_def py_mod_int_def)

lemma updates_single: "updates F [env] s = update F env s"
  by (simp split: prod.splits sum.splits bool.splits)

lemma updates_step:
  "update F env s = (Inr True, s') \<Longrightarrow> updates F (env # envs) s = updates F envs s'"
  by simp

lemma reset_twice:
  "(d(''/Pv/V'' \<mapsto> PInt 0, ''/Yield/Power'' \<mapsto> PInt 0, ''/Yield/System'' \<mapsto> PInt 0,
      ''/Yield/User'' \<mapsto> PInt 0, ''/State'' \<mapsto> PInt 0, ''/Dc/0/Voltage'' \<mapsto> PInt 0,
      ''/Dc/0/Current'' \<mapsto> PInt 0, ''/Load/State'' \<mapsto> PBool False, ''/Load/I'' \<mapsto> PInt 0,
      ''/UpdateIndex'' \<mapsto> u))
     (''/Pv/V'' \<mapsto> PInt 0, ''/Yield/Power'' \<mapsto> PInt 0, ''/Yield/System'' \<mapsto> PInt 0,
      ''/Yield/User'' \<mapsto> PInt 0, ''/State'' \<mapsto> PInt 0, ''/Dc/0/Voltage'' \<mapsto> PInt 0,
      ''/Dc/0/Current'' \<mapsto> PInt 0, ''/Load/State'' \<mapsto> PBool False, ''/Load/I'' \<mapsto> PInt 0,
      ''/UpdateIndex'' \<mapsto> w) =
   d(''/Pv/V'' \<mapsto> PInt 0, ''/Yield/Power'' \<mapsto> PInt 0, ''/Yield/System'' \<mapsto> PInt 0,
      ''/Yield/User'' \<mapsto> PInt 0, ''/State'' \<mapsto> PInt 0, ''/Dc/0/Voltage'' \<mapsto> PInt 0,
      ''/Dc/0/Current'' \<mapsto> PInt 0, ''/Load/State'' \<mapsto> PBool False, ''/Load/I'' \<mapsto> PInt 0,
      ''/UpdateIndex'' \<mapsto> w)"
  by (rule ext) simp

lemma updates_fetch_faults:
  assumes "\<forall>env \<in> set (env # envs). fetch_fault F env"
    and "registered s" and "dbusservice s ''/UpdateIndex'' = Some (PInt i)"
  shows "updates F (env # envs) s =
     (Inr True,
      s\<lparr>dbusservice := (dbusservice s)
         (''/Pv/V'' \<mapsto> PInt 0, ''/Yield/Power'' \<mapsto> PInt 0, ''/Yield/System'' \<mapsto> PInt 0,
          ''/Yield/User'' \<mapsto> PInt 0, ''/State'' \<mapsto> PInt 0, ''/Dc/0/Voltage'' \<mapsto> PInt 0,
          ''/Dc/0/Current'' \<mapsto> PInt 0, ''/Load/State'' \<mapsto> PBool False, ''/Load/I'' \<mapsto> PInt 0,
          ''/UpdateIndex'' \<mapsto> PInt ((i + 1 + int (length envs)) mod 256)),
        logged := logged s @ replicate (Suc (length envs)) Critical\<rparr>)"
  using assms
proof (induction envs arbitrary: env s i)
  case Nil
  then obtain e where e: "getRngBridgeState F env = Inl e" "recoverable e"
    by (auto simp: fetch_fault_def split: sum.splits)
  show ?case
    unfolding updates_single
    by (simp only: list.size of_nat_0 add_0_right replicate.simps
        update_fetch_fault [OF Nil(2,3) e])
next
  case (Cons env' envs)
  from Cons.prems(1) obtain e where e: "getRngBridgeState F env = Inl e" "recoverable e"
    by (auto simp: fetch_fault_def split: sum.splits)
  let ?s1 = "s\<lparr>dbusservice := (dbusservice s)
         (''/Pv/V'' \<mapsto> PInt 0, ''/Yield/Power'' \<mapsto> PInt 0, ''/Yield/System'' \<mapsto> PInt 0,
          ''/Yield/User'' \<mapsto> PInt 0, ''/State'' \<mapsto> PInt 0, ''/Dc/0/Voltage'' \<mapsto> PInt 0,
          ''/Dc/0/Current'' \<mapsto> PInt 0, ''/Load/State'' \<mapsto> PBool False, ''/Load/I'' \<mapsto> PInt 0,
          ''/UpdateIndex'' \<mapsto> PInt ((i + 1) mod 256)),
        logged := logged s @ [Critical]\<rparr>"
  have step: "update F env s = (Inr True, ?s1)"
    by (rule update_fetch_fault [OF Cons.prems(2,3) e])
  have reg: "registered ?s1" by (simp add: registered_def)
  have idx: "dbusservice ?s1 ''/UpdateIndex'' = Some (PInt ((i + 1) mod 256))" by simp
  from Cons.prems(1) have rest: "\<forall>env \<in> set (env' # envs). fetch_fault F env" by simp
  have arith: "((i + 1) mod 256 + 1 + int (length envs)) mod 256 =
      (i + 1 + int (length (env' # envs))) mod 256"
  proof -
    have "((i + 1) mod 256 + (1 + int (length envs))) mod 256 =
        (i + 1 + (1 + int (length envs))) mod 256"
      by (rule mod_add_left_eq)
    then show ?thesis by (simp add: add.assoc)
  qed
  have "updates F (env # env' # envs) s = updates F (env' # envs) ?s1"
    by (rule updates_step [OF step])
  also have "\<dots> = (Inr True,
      ?s1\<lparr>dbusservice := (dbusservice ?s1)
         (''/Pv/V'' \<mapsto> PInt 0, ''/Yield/Power'' \<mapsto> PInt 0, ''/Yield/System'' \<mapsto> PInt 0,
          ''/Yield/User'' \<mapsto> PInt 0, ''/State'' \<mapsto> PInt 0, ''/Dc/0/Voltage'' \<mapsto> PInt 0,
          ''/Dc/0/Current'' \<mapsto> PInt 0, ''/Load/State'' \<mapsto> PBool False, ''/Load/I'' \<mapsto> PInt 0,
          ''/UpdateIndex'' \<mapsto> PInt (((i + 1) mod 256 + 1 + int (length envs)) mod 256)),
        logged := logged ?s1 @ replicate (Suc (length envs)) Critical\<rparr>)"
    by (rule Cons.IH [OF rest reg idx])
  also have "\<dots> = (Inr True,
      s\<lparr>dbusservice := (dbusservice s)
         (''/Pv/V'' \<mapsto> PInt 0, ''/Yield/Power'' \<mapsto> PInt 0, ''/Yield/System'' \<mapsto> PInt 0,
          ''/Yield/User'' \<mapsto> PInt 0, ''/State'' \<mapsto> PInt 0, ''/Dc/0/Voltage'' \<mapsto> PInt 0,
          ''/Dc/0/Current'' \<mapsto> PInt 0, ''/Load/State'' \<mapsto> PBool False, ''/Load/I'' \<mapsto> PInt 0,
          ''/UpdateIndex'' \<mapsto> PInt ((i + 1 + int (length (env' # envs))) mod 256)),
        logged := logged s @ replicate (Suc (length (env' # envs))) Critical\<rparr>)"
    unfolding arith by (simp add: reset_twice del: fun_upd_apply)
  finally show ?case .
qed

text \<open>Consequences for a cycle whose fetch has returned a state.\<close>

lemma try_block_completed:
  assumes "try_block F env s = (None, s')" and "getRngBridgeState F env = Inr state"
  shows "lastUpdate s' = PFloat (now env)"
    and "(p, rhs) \<in> set (projection F state) \<Longrightarrow> \<exists>v. rhs = Inr v \<and> dbusservice s' p = Some v"
    and "\<exists>v w. dbusservice s ''/UpdateIndex'' = Some v \<and> next_index F v = Inr w \<and>
           dbusservice s' ''/UpdateIndex'' = Some w"
proof -
  from try_block_cases [OF assms] have
    c: "lastUpdate s' = PFloat (now env) \<and>
        (\<forall>p rhs. (p, rhs) \<in> set (projection F state) \<longrightarrow>
           (\<exists>v. rhs = Inr v \<and> dbusservice s' p = Some v)) \<and>
        (\<exists>v w. dbusservice s ''/UpdateIndex'' = Some v \<and> next_index F v = Inr w \<and>
           dbusservice s' ''/UpdateIndex'' = Some w)"
    by simp
  from c show "lastUpdate s' = PFloat (now env)" by (rule conjunct1)
  from c have a: "\<forall>p rhs. (p, rhs) \<in> set (projection F state) \<longrightarrow>
           (\<exists>v. rhs = Inr v \<and> dbusservice s' p = Some v)"
    by (elim conjE)
  then show "(p, rhs) \<in> set (projection F state) \<Longrightarrow>
      \<exists>v. rhs = Inr v \<and> dbusservice s' p = Some v"
    by (elim allE impE)
  from c show "\<exists>v w. dbusservice s ''/UpdateIndex'' = Some v \<and> next_index F v = Inr w \<and>
           dbusservice s' ''/UpdateIndex'' = Some w"
    by (elim conjE)
qed

lemma try_block_raised:
  assumes "try_block F env s = (Some e, s')" and "getRngBridgeState F env = Inr state"
  shows "\<not> recoverable e"
    and "dbusservice s' ''/UpdateIndex'' = dbusservice s ''/UpdateIndex''"
    and "lastUpdate s' = lastUpdate s"
  using try_block_cases [OF assms] by simp_all

lemma try_block_written:
  assumes "try_block F env s = (r, s')" and "getRngBridgeState F env = Inr state"
    and "p \<noteq> ''/UpdateIndex''"
  shows "dbusservice s' p = dbusservice s p \<or>
     (\<exists>v. (p, Inr v) \<in> set (projection F state) \<and> dbusservice s' p = Some v)"
proof -
  from try_block_cases [OF assms(1,2)] have
    "\<forall>p. p \<noteq> ''/UpdateIndex'' \<longrightarrow>
        dbusservice s' p = dbusservice s p \<or>
        (\<exists>v. (p, Inr v) \<in> set (projection F state) \<and> dbusservice s' p = Some v)"
    by (elim conjE)
  with assms(3) show ?thesis by (elim allE impE)
qed

lemma completed_outcome:
  "(cycle_outcome F env s = Success) = (fst (try_block F env s) = None)"
  by (simp add: cycle_outcome_def split: option.splits)

lemma update_completed:
  "try_block F env s = (None, s') \<Longrightarrow> update F env s = (Inr True, s')"
  by (simp add: update_def)

lemma state_rhs:
  "item2 state ''c'' ''st'' = Inr st \<Longrightarrow>
     (''/State'', list_item state_map st) \<in> set (projection F state)"
  by (simp add: projection_def)

lemma projection_rhs_unique:
  "(p, a) \<in> set (projection F state) \<Longrightarrow> (p, b) \<in> set (projection F state) \<Longrightarrow> a = b"
  by (rule eq_key_imp_eq_value [OF projection_distinct])

lemma raising_rhs:
  assumes fetch: "getRngBridgeState F env = Inr state"
    and rhs: "(p, Inl e) \<in> set (projection F state)"
  shows "\<exists>e' s'. try_block F env s = (Some e', s') \<and> \<not> recoverable e' \<and>
     dbusservice s' ''/UpdateIndex'' = dbusservice s ''/UpdateIndex'' \<and>
     lastUpdate s' = lastUpdate s \<and> dbusservice s' p = dbusservice s p"
proof -
  obtain r s' where tb: "try_block F env s = (r, s')" by (cases "try_block F env s")
  have p: "p \<noteq> ''/UpdateIndex''"
  proof
    assume "p = ''/UpdateIndex''"
    with rhs have "''/UpdateIndex'' \<in> fst ` set (projection F state)" by force
    with index_not_projected [of F state] show False by simp
  qed
  show ?thesis
  proof (cases r)
    case None
    with tb have "try_block F env s = (None, s')" by simp
    from try_block_completed(2) [OF this fetch rhs] show ?thesis by simp
  next
    case (Some e')
    with tb have tb': "try_block F env s = (Some e', s')" by simp
    have "dbusservice s' p = dbusservice s p"
    proof (rule disjE [OF try_block_written [OF tb' fetch p]])
      assume "\<exists>v. (p, Inr v) \<in> set (projection F state) \<and> dbusservice s' p = Some v"
      then obtain v where "(p, Inr v) \<in> set (projection F state)" by blast
      from projection_rhs_unique [OF rhs this] show ?thesis by simp
    qed
    with try_block_raised [OF tb' fetch] tb' show ?thesis by simp
  qed
qed

text \<open>The example inputs, evaluated.\<close>

lemma setitem_raises: "setitem p (Inl e) s = (Some e, s)"
  by (simp add: setitem_def)

lemma example_index: "dbusservice example_service ''/UpdateIndex'' = Some (PInt 255)"
  by (simp add: example_service_def)

lemma coded_fetch:
  "getRngBridgeState exact_floats (responding (coded_state d)) = Inr (coded_state d)"
  by (simp add: example_fetch) (simp add: coded_state_def)

lemma coded_try_block:
  assumes "list_item state_map (PInt d :: rat pyval) = Inr pub"
  shows "try_block exact_floats (responding (coded_state d)) example_service =
     (None,
      example_service\<lparr>dbusservice := (dbusservice example_service)
           (''/Pv/V'' \<mapsto> PFloat 40, ''/Yield/Power'' \<mapsto> PFloat 200, ''/State'' \<mapsto> pub,
            ''/Yield/System'' \<mapsto> PFloat 123, ''/Yield/User'' \<mapsto> PFloat (9 / 2),
            ''/Dc/0/Voltage'' \<mapsto> PFloat 26, ''/Dc/0/Current'' \<mapsto> PFloat (24 / 5),
            ''/Load/State'' \<mapsto> PBool True, ''/Load/I'' \<mapsto> PFloat (6 / 5),
            ''/UpdateIndex'' \<mapsto> PInt 0),
         lastUpdate := PFloat 1700000000,
         logged := [Debug, Debug, Debug, Debug]\<rparr>)"
proof -
  have "try_block exact_floats (responding (coded_state d)) example_service =
     (None,
      example_service\<lparr>dbusservice := (dbusservice example_service)
           (''/Pv/V'' \<mapsto> PFloat 40, ''/Yield/Power'' \<mapsto> PFloat 200, ''/State'' \<mapsto> pub,
            ''/Yield/System'' \<mapsto> PFloat 123, ''/Yield/User'' \<mapsto> PFloat (9 / 2),
            ''/Dc/0/Voltage'' \<mapsto> PFloat 26, ''/Dc/0/Current'' \<mapsto> PFloat (24 / 5),
            ''/Load/State'' \<mapsto> PBool True, ''/Load/I'' \<mapsto> PFloat (6 / 5),
            ''/UpdateIndex'' \<mapsto> PInt ((255 + 1) mod 256)),
         lastUpdate := PFloat (now (responding (coded_state d))),
         logged := logged example_service @ [Debug, Debug, Debug, Debug]\<rparr>)"
    by (rule try_block_success [where cu = "PFloat 5" and st = "PInt d" and tot = "PInt 123000"
            and ge = "PInt 4500", OF coded_fetch _ _ _ _ assms _ _ _ _ _ _ _ _
            example_registered example_index])
      (simp_all add: item2_def coded_state_def exact_floats_def py_truediv_def)
  then show ?thesis
    by (simp add: responding_def example_service_def)
qed

lemma partial_try_block:
  "try_block exact_floats (responding partial_state) example_service =
     (Some (KeyError ''c''),
      example_service\<lparr>dbusservice := (dbusservice example_service)
           (''/Pv/V'' \<mapsto> PFloat 40, ''/Yield/Power'' \<mapsto> PFloat 200)\<rparr>)"
proof -
  have fetch: "getRngBridgeState exact_floats (responding partial_state) = Inr partial_state"
    by (simp add: example_fetch) (simp add: partial_state_def)
  have reg: "dbusservice example_service ''/Pv/V'' \<noteq> None"
    "dbusservice example_service ''/Yield/Power'' \<noteq> None"
    by (simp_all add: example_service_def)
  show ?thesis
    unfolding try_block_def fetch
    using reg
    by (simp add: projection_def assign_def item2_def partial_state_def setitem_registered
        exact_floats_def setitem_raises)
qed

lemma headless_try_block:
  "try_block exact_floats (responding headless_state) example_service =
     (Some (KeyError ''vo''), example_service)"
proof -
  have fetch: "getRngBridgeState exact_floats (responding headless_state) = Inr headless_state"
    by (simp add: example_fetch) (simp add: headless_state_def)
  show ?thesis
    unfolding try_block_def fetch
    by (simp add: projection_def assign_def item2_def headless_state_def setitem_raises)
qed

lemma failing_fetch: "getRngBridgeState exact_floats (failing e) = Inl e"
  by (simp add: getRngBridgeState_def getStatusUrl_def cfg_item_def example_config_def
      failing_def requestData_def)

lemma coded_outcome:
  "list_item state_map (PInt d :: rat pyval) = Inr pub \<Longrightarrow>
     cycle_outcome exact_floats (responding (coded_state d)) example_service = Success"
  by (simp add: completed_outcome coded_try_block)

lemma coded_update:
  "list_item state_map (PInt d :: rat pyval) = Inr pub \<Longrightarrow>
     dbusservice (snd (update exact_floats (responding (coded_state d)) example_service)) ''/State'' =
       Some pub"
  by (simp add: update_completed [OF coded_try_block])

lemma example_coded: "example_state = coded_state 3"
  by (simp add: example_state_def coded_state_def)

lemma partial_fetch:
  "getRngBridgeState exact_floats (responding partial_state) = Inr partial_state"
  by (simp add: example_fetch) (simp add: partial_state_def)

lemma partial_outcome:
  "cycle_outcome exact_floats (responding partial_state) example_service = UnhandledFault"
  by (simp add: cycle_outcome_def partial_try_block)

lemma headless_fetch:
  "getRngBridgeState exact_floats (responding headless_state) = Inr headless_state"
  by (simp add: example_fetch) (simp add: headless_state_def)

lemma failing_fault: "fetch_fault exact_floats (failing e) = recoverable e"
  by (simp add: fetch_fault_def failing_fetch)

text \<open>The constructor.\<close>

lemma run_append_None:
  "run (xs @ ys) s = (None, s') \<Longrightarrow> \<exists>s1. run xs s = (None, s1) \<and> run ys s1 = (None, s')"
  by (cases "run xs s") (auto simp: run_append split: option.splits)

lemma run_keeps:
  assumes "\<forall>c \<in> set cs. \<forall>s r s'. c s = (r, s') \<longrightarrow> f s' = f s"
    and "run cs s = (r, s')"
  shows "f s' = f s"
  using assms
proof (induction cs arbitrary: s)
  case Nil
  then show ?case by simp
next
  case (Cons c cs)
  obtain r0 s0 where c: "c s = (r0, s0)" by (cases "c s")
  with Cons.prems(1) have s0: "f s0 = f s" by simp
  show ?case
  proof (cases r0)
    case None
    with Cons.prems(2) c have "run cs s0 = (r, s')" by simp
    with Cons.IH [of s0] Cons.prems(1) s0 show ?thesis by simp
  next
    case (Some e)
    with Cons.prems(2) c s0 show ?thesis by simp
  qed
qed

lemma add_path_timers: "add_path p rhs s = (r, s') \<Longrightarrow> timers s' = timers s"
  by (auto simp: add_path_def split: sum.splits option.splits)

lemma init_run:
  assumes "init F cfg file version pths = Inr s"
  shows "\<exists>d c. run
        ([logging Debug] @
         map add_mandatory (mandatory_paths F cfg file version d c) @
         map add_initial pths @
         [set_lastUpdate (PInt 0),
          timeout_add (Inr 2000) Update,
          timeout_add
            (case getSignOfLifeInterval cfg of Inl e \<Rightarrow> Inl e | Inr n \<Rightarrow> Inr (n * 60 * 1000))
            SignOfLife])
        \<lparr>dbusservice = Map.empty, paths = pths, lastUpdate = PNone, timers = [], logged = []\<rparr> =
      (None, s)"
  using assms unfolding init_def
  by (auto split: sum.splits prod.splits option.splits)

lemma silent_init:
  "(case init exact_floats silent_config ''dbus-rngbridge.py'' ''3.8.13'' main_paths of
      Inl e \<Rightarrow> None
    | Inr s \<Rightarrow> Some (timers s)) = Some [(2000, Update), (0, SignOfLife)]"
  by (simp add: init_def silent_config_def cfg_item_def py_int_def strip_def is_space_def
      unsigned_def digit_val_def mandatory_paths_def add_mandatory_def add_path_def logging_def
      main_paths_def add_initial_def set_lastUpdate_def timeout_add_def
      getSignOfLifeInterval_def)

lemma example_init:
  "(case init exact_floats example_config ''dbus-rngbridge.py'' ''3.8.13'' main_paths of
      Inl e \<Rightarrow> False
    | Inr s \<Rightarrow> True)"
  by (simp add: init_def example_config_def cfg_item_def py_int_def strip_def is_space_def
      unsigned_def digit_val_def mandatory_paths_def add_mandatory_def add_path_def logging_def
      main_paths_def add_initial_def set_lastUpdate_def timeout_add_def
      getSignOfLifeInterval_def)

lemma example_interval: "getSignOfLifeInterval example_config = Inr 10"
  by (simp add: getSignOfLifeInterval_def example_config_def cfg_item_def py_int_def strip_def
      is_space_def unsigned_def digit_val_def)

text \<open>The update index after a cycle, by the way the cycle ended.\<close>

lemma index_by_outcome:
  assumes "registered s" and "dbusservice s ''/UpdateIndex'' = Some (PInt i)"
  shows "fst (update F env s) = Inr True \<and>
     dbusservice (snd (update F env s)) ''/UpdateIndex'' =
       Some (PInt (case cycle_outcome F env s of
                     Success \<Rightarrow> (i + 1) mod 256
                   | RecoverableFault \<Rightarrow> (i + 1) mod 256
                   | UnhandledFault \<Rightarrow> i)) \<and>
     0 \<le> (i + 1) mod 256 \<and> (i + 1) mod 256 < 256"
proof (cases "getRngBridgeState F env")
  case (Inl e)
  show ?thesis
  proof (cases "recoverable e")
    case True
    with update_fetch_fault [OF assms Inl] outcome_fetch_failed [OF Inl, of s]
    show ?thesis by simp
  next
    case False
    with update_unhandled [OF try_block_fetch_failed [OF Inl]] outcome_fetch_failed [OF Inl, of s]
      assms(2)
    show ?thesis by simp
  qed
next
  case (Inr state)
  obtain r s' where tb: "try_block F env s = (r, s')" by (cases "try_block F env s")
  note c = try_block_cases [OF tb Inr]
  show ?thesis
  proof (cases r)
    case None
    with c assms(2) have "dbusservice s' ''/UpdateIndex'' = Some (PInt ((i + 1) mod 256))"
      by (auto simp: next_index_int)
    with None tb show ?thesis by (simp add: update_def cycle_outcome_def)
  next
    case (Some e)
    with c have e: "\<not> recoverable e"
      and "dbusservice s' ''/UpdateIndex'' = dbusservice s ''/UpdateIndex''" by simp_all
    with Some tb assms(2) update_unhandled [of F env s e s'] show ?thesis
      by (simp add: cycle_outcome_def)
  qed
qed

text \<open>On integers the product is the exact integer product.\<close>

lemma py_mul_ints: "py_mul F (PInt a) (PInt b) = Inr (PInt (a * b))"
  by simp

text \<open>
  The constructor establishes the invariant, with the update index at 0, and
  every cycle returns \<^verbatim>\<open>True\<close> and keeps it: the main loop goes on calling
  \<^verbatim>\<open>_update\<close>, whatever the cycles' inputs are.
\<close>

lemma add_path_cases:
  "add_path p rhs s = (None, s') \<Longrightarrow>
     \<exists>v. rhs = Inr v \<and> dbusservice s p = None \<and>
         s' = s\<lparr>dbusservice := (dbusservice s)(p \<mapsto> v)\<rparr>"
  by (auto simp: add_path_def split: sum.splits option.splits)

lemma added_paths:
  "run (map add_mandatory as) s = (None, s') \<Longrightarrow>
     paths s' = paths s \<and> lastUpdate s' = lastUpdate s \<and>
     (\<forall>p v. dbusservice s p = Some v \<longrightarrow> dbusservice s' p = Some v) \<and>
     (\<forall>p rhs. (p, rhs) \<in> set as \<longrightarrow> (\<exists>v. rhs = Inr v \<and> dbusservice s' p = Some v))"
proof (induction as arbitrary: s)
  case Nil
  then show ?case by simp
next
  case (Cons a as)
  obtain r0 s0 where a: "add_mandatory a s = (r0, s0)" by (cases "add_mandatory a s")
  with Cons.prems have r0: "r0 = None" and rest: "run (map add_mandatory as) s0 = (None, s')"
    by (auto split: option.splits)
  from a r0 have "add_path (fst a) (snd a) s = (None, s0)" by (simp add: add_mandatory_def)
  from add_path_cases [OF this] obtain v where
    v: "snd a = Inr v" "dbusservice s (fst a) = None"
      "s0 = s\<lparr>dbusservice := (dbusservice s)(fst a \<mapsto> v)\<rparr>"
    by blast
  note ih = Cons.IH [OF rest]
  have keep: "dbusservice s' p = Some w" if "dbusservice s p = Some w" for p w
  proof -
    from that v(2) have "p \<noteq> fst a" by auto
    with that v(3) have "dbusservice s0 p = Some w" by simp
    with ih show ?thesis by blast
  qed
  have new: "\<exists>w. rhs = Inr w \<and> dbusservice s' p = Some w" if "(p, rhs) \<in> set (a # as)" for p rhs
  proof (cases "(p, rhs) = a")
    case True
    with v have "rhs = Inr v" "dbusservice s0 p = Some v" by auto
    with ih show ?thesis by blast
  next
    case False
    with that have "(p, rhs) \<in> set as" by simp
    with ih show ?thesis by blast
  qed
  from ih v(3) keep new show ?case by auto
qed

lemma add_initial_mandatory:
  "map add_initial pths = map add_mandatory (map (\<lambda>a. (fst a, Inr (snd a))) pths)"
  by (simp add: add_initial_def add_mandatory_def fun_eq_iff)

lemma init_invariant:
  assumes "init F cfg file version main_paths = Inr s"
  shows "invariant s \<and> dbusservice s ''/UpdateIndex'' = Some (PInt 0) \<and> lastUpdate s = PInt 0"
proof -
  let ?blank = "\<lparr>dbusservice = Map.empty, paths = main_paths, lastUpdate = PNone, timers = [],
      logged = []\<rparr> :: 'a service"
  from init_run [OF assms] obtain d c where
    "run ([logging Debug] @
         map add_mandatory (mandatory_paths F cfg file version d c) @
         map add_initial main_paths @
         [set_lastUpdate (PInt 0),
          timeout_add (Inr 2000) Update,
          timeout_add
            (case getSignOfLifeInterval cfg of Inl e \<Rightarrow> Inl e | Inr n \<Rightarrow> Inr (n * 60 * 1000))
            SignOfLife]) ?blank = (None, s)"
    by blast
  then obtain s1 s2 s3 where
    2: "run (map add_mandatory (mandatory_paths F cfg file version d c)) s1 = (None, s2)"
    and 3: "run (map add_initial main_paths) s2 = (None, s3)"
    and 4: "run [set_lastUpdate (PInt 0),
          timeout_add (Inr 2000) Update,
          timeout_add
            (case getSignOfLifeInterval cfg of Inl e \<Rightarrow> Inl e | Inr n \<Rightarrow> Inr (n * 60 * 1000))
            SignOfLife] s3 = (None, s)"
    by (blast dest: run_append_None)
  have "(''/UpdateIndex'', Inr (PInt 0)) \<in> set (mandatory_paths F cfg file version d c)"
    by (simp add: mandatory_paths_def)
  with added_paths [OF 2] have "dbusservice s2 ''/UpdateIndex'' = Some (PInt 0)" by blast
  moreover note a3 = added_paths [OF 3 [unfolded add_initial_mandatory]]
  ultimately have idx: "dbusservice s3 ''/UpdateIndex'' = Some (PInt 0)" by blast
  have "\<exists>v. dbusservice s3 p = Some v" if "p \<in> fst ` set (main_paths :: (string \<times> 'a pyval) list)" for p
  proof -
    from that obtain v where "(p, v) \<in> set (main_paths :: (string \<times> 'a pyval) list)" by auto
    then have "(p, Inr v) \<in> set (map (\<lambda>a. (fst a, Inr (snd a))) (main_paths :: (string \<times> 'a pyval) list))"
      by force
    with a3 show ?thesis by blast
  qed
  then have nine: "\<forall>p \<in> fst ` set (main_paths :: (string \<times> 'a pyval) list). dbusservice s3 p \<noteq> None"
    by auto
  from 4 have s: "dbusservice s = dbusservice s3" "lastUpdate s = PInt 0"
    by (auto simp: set_lastUpdate_def timeout_add_def split: sum.splits)
  from nine idx s show ?thesis
    by (simp add: invariant_def registered_def main_paths_def)
qed

lemma try_block_registered:
  assumes "try_block F env s = (r, s')"
  shows "registered s' = registered s"
proof (cases "getRngBridgeState F env")
  case (Inl e)
  with assms try_block_fetch_failed [OF Inl, of s] show ?thesis by simp
next
  case (Inr state)
  from try_block_cases [OF assms Inr]
  have "\<forall>p. (dbusservice s' p = None) = (dbusservice s p = None)" by (elim conjE)
  then show ?thesis by (simp add: registered_def)
qed

lemma update_invariant:
  assumes "invariant s"
  shows "fst (update F env s) = Inr True \<and> invariant (snd (update F env s))"
proof -
  from assms obtain i where reg: "registered s"
    and idx: "dbusservice s ''/UpdateIndex'' = Some (PInt i)" and i: "0 \<le> i" "i < 256"
    by (auto simp: invariant_def split: option.splits pyval.splits)
  note ix = index_by_outcome [OF reg idx, of F env]
  have "registered (snd (update F env s))"
  proof (cases "fetch_fault F env")
    case True
    then obtain e where "getRngBridgeState F env = Inl e" "recoverable e"
      by (auto simp: fetch_fault_def split: sum.splits)
    from update_fetch_fault [OF reg idx this] show ?thesis by (simp add: registered_def)
  next
    case False
    obtain r s' where tb: "try_block F env s = (r, s')" by (cases "try_block F env s")
    from False have nr: "cycle_outcome F env s \<noteq> RecoverableFault"
      by (simp add: recoverable_iff_fetch_fault)
    from try_block_registered [OF tb] reg have r': "registered s'" by simp
    show ?thesis
    proof (cases r)
      case None
      with tb r' show ?thesis by (simp add: update_def)
    next
      case (Some e)
      with nr tb have "\<not> recoverable e" by (simp add: cycle_outcome_def split: if_splits)
      with Some tb update_unhandled [of F env s e s'] r' show ?thesis
        by (simp add: registered_def)
    qed
  qed
  moreover from ix i have "case dbusservice (snd (update F env s)) ''/UpdateIndex'' of
      Some (PInt j) \<Rightarrow> 0 \<le> j \<and> j < 256 | _ \<Rightarrow> False"
    by (cases "cycle_outcome F env s") simp_all
  ultimately show ?thesis using ix by (simp add: invariant_def)
qed

lemma updates_invariant:
  "invariant s \<Longrightarrow> fst (updates F envs s) = Inr True \<and> invariant (snd (updates F envs s))"
proof (induction envs arbitrary: s)
  case Nil
  then show ?case by simp
next
  case (Cons env envs)
  obtain s' where u: "update F env s = (Inr True, s')"
    using update_invariant [OF Cons.prems, of F env] by (cases "update F env s") auto
  with update_invariant [OF Cons.prems, of F env] have "invariant s'" by simp
  from Cons.IH [OF this] u show ?case by simp
qed

text \<open>
  A required field that cannot be looked up (it is missing, or what should be
  the enclosing object is not one) makes a right-hand side raise.
\<close>

lemma missing_field_raises:
  assumes "(a, b) \<in> set [(''p'', ''vo''), (''p'', ''cu''), (''c'', ''st''), (''b'', ''to''),
      (''b'', ''ge''), (''b'', ''vo''), (''b'', ''cu''), (''o'', ''l''), (''l'', ''cu'')]"
    and "item2 state a b = Inl e"
  shows "\<exists>p e'. (p, Inl e') \<in> set (projection F state)"
proof -
  have power: "\<exists>e'. (case item2 state ''p'' ''vo'' of
        Inl e \<Rightarrow> Inl e
      | Inr vo \<Rightarrow> (case item2 state ''p'' ''cu'' of Inl e \<Rightarrow> Inl e | Inr cu \<Rightarrow> py_mul F vo cu)) =
      Inl e'" if "item2 state ''p'' ''cu'' = Inl e"
    using that by (cases "item2 state ''p'' ''vo''") auto
  from assms consider
    "item2 state ''p'' ''vo'' = Inl e" | "item2 state ''p'' ''cu'' = Inl e" |
    "item2 state ''c'' ''st'' = Inl e" | "item2 state ''b'' ''to'' = Inl e" |
    "item2 state ''b'' ''ge'' = Inl e" | "item2 state ''b'' ''vo'' = Inl e" |
    "item2 state ''b'' ''cu'' = Inl e" | "item2 state ''o'' ''l'' = Inl e" |
    "item2 state ''l'' ''cu'' = Inl e"
    by auto
  then show ?thesis
  proof cases
    case 1
    then have "(''/Pv/V'', Inl e) \<in> set (projection F state)" by (simp add: projection_def)
    then show ?thesis by blast
  next
    case 2
    from power [OF 2] obtain e' where "(''/Yield/Power'', Inl e') \<in> set (projection F state)"
      by (auto simp: projection_def)
    then show ?thesis by blast
  next
    case 3
    then have "(''/State'', Inl e) \<in> set (projection F state)" by (simp add: projection_def)
    then show ?thesis by blast
  next
    case 4
    then have "(''/Yield/System'', Inl e) \<in> set (projection F state)"
      by (simp add: projection_def)
    then show ?thesis by blast
  next
    case 5
    then have "(''/Yield/User'', Inl e) \<in> set (projection F state)"
      by (simp add: projection_def)
    then show ?thesis by blast
  next
    case 6
    then have "(''/Dc/0/Voltage'', Inl e) \<in> set (projection F state)"
      by (simp add: projection_def)
    then show ?thesis by blast
  next
    case 7
    then have "(''/Dc/0/Current'', Inl e) \<in> set (projection F state)"
      by (simp add: projection_def)
    then show ?thesis by blast
  next
    case 8
    then have "(''/Load/State'', Inl e) \<in> set (projection F state)"
      by (simp add: projection_def)
    then show ?thesis by blast
  next
    case 9
    then have "(''/Load/I'', Inl e) \<in> set (projection F state)" by (simp add: projection_def)
    then show ?thesis by blast
  qed
qed


text \<open>
  A write by an external client keeps the paths registered and the update
  index as it is, so that the next cycle runs as on any other store; a
  successful cycle then overwrites the value written (Scenario D of the
  specification).
\<close>

lemma external_write_dom:
  "(dbusservice (external_write p v s) q = None) = (dbusservice s q = None)"
  by (simp add: external_write_def handlechangedvalue_def logging_def)

lemma external_write_registered: "registered (external_write p v s) = registered s"
  by (simp add: registered_def external_write_dom)

lemma external_write_index:
  "''/UpdateIndex'' \<notin> set (map fst (paths s)) \<Longrightarrow>
     dbusservice (external_write p v s) ''/UpdateIndex'' = dbusservice s ''/UpdateIndex''"
  by (auto simp: external_write_def handlechangedvalue_def logging_def)

lemma external_write_overwritten:
  "dbusservice (external_write ''/Pv/V'' (PInt 99) example_service) ''/Pv/V'' = Some (PInt 99) \<and>
   dbusservice (snd (update exact_floats (responding example_state)
       (external_write ''/Pv/V'' (PInt 99) example_service))) ''/Pv/V'' = Some (PFloat 40)"
proof -
  let ?s = "external_write ''/Pv/V'' (PInt 99) example_service"
  have reg: "registered ?s"
    by (simp add: external_write_registered example_registered)
  have "''/UpdateIndex'' \<notin> set (map fst (paths example_service))"
    by (simp add: example_service_def main_paths_def)
  then have idx: "dbusservice ?s ''/UpdateIndex'' = Some (PInt 255)"
    by (simp add: external_write_index example_index)
  have fetch: "getRngBridgeState exact_floats (responding example_state) = Inr example_state"
    by (simp add: example_fetch) (simp add: example_state_def)
  have "try_block exact_floats (responding example_state) ?s =
     (None,
      ?s\<lparr>dbusservice := (dbusservice ?s)
           (''/Pv/V'' \<mapsto> PFloat 40, ''/Yield/Power'' \<mapsto> PFloat 200, ''/State'' \<mapsto> PInt 7,
            ''/Yield/System'' \<mapsto> PFloat 123, ''/Yield/User'' \<mapsto> PFloat (9 / 2),
            ''/Dc/0/Voltage'' \<mapsto> PFloat 26, ''/Dc/0/Current'' \<mapsto> PFloat (24 / 5),
            ''/Load/State'' \<mapsto> PBool True, ''/Load/I'' \<mapsto> PFloat (6 / 5),
            ''/UpdateIndex'' \<mapsto> PInt ((255 + 1) mod 256)),
         lastUpdate := PFloat (now (responding example_state)),
         logged := logged ?s @ [Debug, Debug, Debug, Debug]\<rparr>)"
    by (rule try_block_success [where cu = "PFloat 5" and st = "PInt 3" and tot = "PInt 123000"
            and ge = "PInt 4500", OF fetch _ _ _ _ _ _ _ _ _ _ _ _ _ reg idx])
      (simp_all add: item2_def example_state_def exact_floats_def list_item_def state_map_def
        py_truediv_def)
  from update_completed [OF this]
  have after: "dbusservice (snd (update exact_floats (responding example_state) ?s)) ''/Pv/V'' =
      Some (PFloat 40)"
    by simp
  have "''/Pv/V'' \<in> set (map fst (paths example_service))"
    "dbusservice example_service ''/Pv/V'' \<noteq> None"
    by (simp_all add: example_service_def main_paths_def)
  then have "dbusservice ?s ''/Pv/V'' = Some (PInt 99)"
    by (simp add: external_write_def handlechangedvalue_def logging_def)
  with after show ?thesis by simp
qed

text \<open>
  A sequence of assignments to distinct properties stops at the first one that
  raises, because its right-hand side raises or because its property is not
  registered. The assignments before it have been made, and nothing else has
  changed: no assignment is undone.
\<close>

lemma assigns_prefix:
  assumes "run (map assign as) s = (r, s')" and "distinct (map fst as)"
  shows "\<exists>k \<le> length as.
     (\<forall>a \<in> set (take k as). dbusservice s (fst a) \<noteq> None \<and>
        (\<exists>v. snd a = Inr v \<and> dbusservice s' (fst a) = Some v)) \<and>
     (\<forall>p. p \<notin> fst ` set (take k as) \<longrightarrow> dbusservice s' p = dbusservice s p) \<and>
     (r = None \<longrightarrow> k = length as) \<and>
     (r \<noteq> None \<longrightarrow> k < length as \<and>
        ((\<exists>e. snd (as ! k) = Inl e) \<or> dbusservice s (fst (as ! k)) = None))"
  using assms
proof (induction as arbitrary: s)
  case Nil
  then show ?case by simp
next
  case (Cons a as)
  obtain r0 s0 where a: "assign a s = (r0, s0)" by (cases "assign a s")
  then have c: "setitem (fst a) (snd a) s = (r0, s0)" by (simp add: assign_def)
  show ?case
  proof (cases r0)
    case (Some e)
    with Cons.prems(1) a have r: "r = Some e" and s0: "s' = s0" by simp_all
    from setitem_cases [OF c] Some have same: "s0 = s"
      and why: "(\<exists>e. snd a = Inl e) \<or> dbusservice s (fst a) = None"
      by auto
    have "0 \<le> length (a # as) \<and>
       (\<forall>b \<in> set (take 0 (a # as)). dbusservice s (fst b) \<noteq> None \<and>
          (\<exists>v. snd b = Inr v \<and> dbusservice s' (fst b) = Some v)) \<and>
       (\<forall>p. p \<notin> fst ` set (take 0 (a # as)) \<longrightarrow> dbusservice s' p = dbusservice s p) \<and>
       (r = None \<longrightarrow> 0 = length (a # as)) \<and>
       (r \<noteq> None \<longrightarrow> 0 < length (a # as) \<and>
          ((\<exists>e. snd ((a # as) ! 0) = Inl e) \<or> dbusservice s (fst ((a # as) ! 0)) = None))"
      using r s0 same why by simp
    then show ?thesis by (rule exI [of _ 0])
  next
    case None
    with Cons.prems(1) a have rest: "run (map assign as) s0 = (r, s')" by simp
    from setitem_cases [OF c] None obtain v old where
      v: "snd a = Inr v" "dbusservice s (fst a) = Some old"
        "s0 = s\<lparr>dbusservice := (dbusservice s)(fst a \<mapsto> v)\<rparr>"
      by auto
    from Cons.prems(2) have dist: "distinct (map fst as)" and new: "fst a \<notin> fst ` set as"
      by simp_all
    from Cons.IH [OF rest dist] obtain k where kk: "k \<le> length as \<and>
      (\<forall>a \<in> set (take k as). dbusservice s0 (fst a) \<noteq> None \<and>
         (\<exists>v. snd a = Inr v \<and> dbusservice s' (fst a) = Some v)) \<and>
      (\<forall>p. p \<notin> fst ` set (take k as) \<longrightarrow> dbusservice s' p = dbusservice s0 p) \<and>
      (r = None \<longrightarrow> k = length as) \<and>
      (r \<noteq> None \<longrightarrow> k < length as \<and>
        ((\<exists>e. snd (as ! k) = Inl e) \<or> dbusservice s0 (fst (as ! k)) = None))"
      unfolding Bex_def by (erule exE)
    from kk have k: "k \<le> length as" by (elim conjE)
    from kk have wr: "\<forall>a \<in> set (take k as). dbusservice s0 (fst a) \<noteq> None \<and>
         (\<exists>v. snd a = Inr v \<and> dbusservice s' (fst a) = Some v)"
      by (elim conjE)
    from kk have fr: "\<forall>p. p \<notin> fst ` set (take k as) \<longrightarrow> dbusservice s' p = dbusservice s0 p"
      by (elim conjE)
    from kk have fin: "r = None \<longrightarrow> k = length as" by (elim conjE)
    from kk have fail: "r \<noteq> None \<longrightarrow> k < length as \<and>
        ((\<exists>e. snd (as ! k) = Inl e) \<or> dbusservice s0 (fst (as ! k)) = None)"
      by (elim conjE)
    have sub: "set (take k as) \<subseteq> set as" by (rule set_take_subset)
    with new have "fst a \<notin> fst ` set (take k as)" by blast
    with fr have "dbusservice s' (fst a) = dbusservice s0 (fst a)" by blast
    with v(3) have first: "dbusservice s' (fst a) = Some v" by simp
    have tk: "set (take (Suc k) (a # as)) = insert a (set (take k as))" by simp
    have some: "dbusservice s q \<noteq> None" if "dbusservice s0 q \<noteq> None" for q
    proof (cases "q = fst a")
      case True
      with v(2) show ?thesis by simp
    next
      case False
      with that v(3) show ?thesis by simp
    qed
    have wr': "\<forall>b \<in> set (take (Suc k) (a # as)). dbusservice s (fst b) \<noteq> None \<and>
        (\<exists>v. snd b = Inr v \<and> dbusservice s' (fst b) = Some v)"
    proof
      fix b assume "b \<in> set (take (Suc k) (a # as))"
      with tk have "b = a \<or> b \<in> set (take k as)" by blast
      then show "dbusservice s (fst b) \<noteq> None \<and>
          (\<exists>v. snd b = Inr v \<and> dbusservice s' (fst b) = Some v)"
      proof
        assume "b = a"
        with v(1,2) first show ?thesis by simp
      next
        assume b: "b \<in> set (take k as)"
        with wr have both: "dbusservice s0 (fst b) \<noteq> None \<and>
            (\<exists>v. snd b = Inr v \<and> dbusservice s' (fst b) = Some v)"
          by (rule bspec)
        from both have "dbusservice s0 (fst b) \<noteq> None" by (rule conjunct1)
        then have "dbusservice s (fst b) \<noteq> None" by (rule some)
        moreover from both have "\<exists>v. snd b = Inr v \<and> dbusservice s' (fst b) = Some v"
          by (rule conjunct2)
        ultimately show ?thesis by (rule conjI)
      qed
    qed
    have fr': "\<forall>p. p \<notin> fst ` set (take (Suc k) (a # as)) \<longrightarrow> dbusservice s' p = dbusservice s p"
    proof (intro allI impI)
      fix p assume "p \<notin> fst ` set (take (Suc k) (a # as))"
      with tk have p: "p \<noteq> fst a" "p \<notin> fst ` set (take k as)" by blast+
      with fr have "dbusservice s' p = dbusservice s0 p" by blast
      with p(1) v(3) show "dbusservice s' p = dbusservice s p" by simp
    qed
    have none: "dbusservice s q = None" if "dbusservice s0 q = None" for q
    proof (cases "q = fst a")
      case True
      with that v(3) show ?thesis by simp
    next
      case False
      with that v(3) show ?thesis by simp
    qed
    have fail': "r \<noteq> None \<longrightarrow> Suc k < length (a # as) \<and>
        ((\<exists>e. snd ((a # as) ! Suc k) = Inl e) \<or> dbusservice s (fst ((a # as) ! Suc k)) = None)"
    proof
      assume rn: "r \<noteq> None"
      from fail rn have both: "k < length as \<and>
          ((\<exists>e. snd (as ! k) = Inl e) \<or> dbusservice s0 (fst (as ! k)) = None)"
        by (rule mp)
      from both have lt: "k < length as" by (rule conjunct1)
      from both have d: "(\<exists>e. snd (as ! k) = Inl e) \<or> dbusservice s0 (fst (as ! k)) = None"
        by (rule conjunct2)
      from d have "(\<exists>e. snd (as ! k) = Inl e) \<or> dbusservice s (fst (as ! k)) = None"
      proof
        assume "\<exists>e. snd (as ! k) = Inl e"
        then show ?thesis by (rule disjI1)
      next
        assume "dbusservice s0 (fst (as ! k)) = None"
        then have "dbusservice s (fst (as ! k)) = None" by (rule none)
        then show ?thesis by (rule disjI2)
      qed
      with lt show "Suc k < length (a # as) \<and>
        ((\<exists>e. snd ((a # as) ! Suc k) = Inl e) \<or> dbusservice s (fst ((a # as) ! Suc k)) = None)"
        by simp
    qed
    from k have k': "Suc k \<le> length (a # as)" by simp
    from fin have fin': "r = None \<longrightarrow> Suc k = length (a # as)" by simp
    from k' wr' fr' fin' fail' show ?thesis
      by (intro exI [of _ "Suc k"] conjI) assumption+
  qed
qed

text \<open>The assignments of the state that stops after the PV readings.\<close>

lemma partial_projection:
  "projection exact_floats partial_state =
     [(''/Pv/V'', Inr (PFloat 40)), (''/Yield/Power'', Inr (PFloat 200)),
      (''/State'', Inl (KeyError ''c'')), (''/Yield/System'', Inl (KeyError ''b'')),
      (''/Yield/User'', Inl (KeyError ''b'')), (''/Dc/0/Voltage'', Inl (KeyError ''b'')),
      (''/Dc/0/Current'', Inl (KeyError ''b'')), (''/Load/State'', Inl (KeyError ''o'')),
      (''/Load/I'', Inl (KeyError ''l''))]"
  by (simp add: projection_def item2_def partial_state_def exact_floats_def)

text \<open>The state with the fine-grained readings, evaluated.\<close>

lemma fine_fetch: "getRngBridgeState exact_floats (responding fine_state) = Inr fine_state"
  by (simp add: example_fetch) (simp add: fine_state_def)

lemma fine_try_block:
  "try_block exact_floats (responding fine_state) example_service =
     (None,
      example_service\<lparr>dbusservice := (dbusservice example_service)
           (''/Pv/V'' \<mapsto> PFloat (12345 / 1000), ''/Yield/Power'' \<mapsto> PFloat (2469 / 100),
            ''/State'' \<mapsto> PInt 7,
            ''/Yield/System'' \<mapsto> PFloat (12345 / 1000), ''/Yield/User'' \<mapsto> PFloat (9 / 2),
            ''/Dc/0/Voltage'' \<mapsto> PFloat 26, ''/Dc/0/Current'' \<mapsto> PFloat (24 / 5),
            ''/Load/State'' \<mapsto> PBool True, ''/Load/I'' \<mapsto> PFloat (6 / 5),
            ''/UpdateIndex'' \<mapsto> PInt ((255 + 1) mod 256)),
         lastUpdate := PFloat (now (responding fine_state)),
         logged := logged example_service @ [Debug, Debug, Debug, Debug]\<rparr>)"
  by (rule try_block_success [where cu = "PInt 2" and st = "PInt 3" and tot = "PInt 12345"
          and ge = "PInt 4500", OF fine_fetch _ _ _ _ _ _ _ _ _ _ _ _ _
          example_registered example_index])
    (simp_all add: item2_def fine_state_def exact_floats_def py_truediv_def mul_float_int_def
      list_item_def state_map_def)

lemma fine_outcome:
  "cycle_outcome exact_floats (responding fine_state) example_service = Success"
  by (simp add: completed_outcome fine_try_block)

text \<open>The floor of a quotient of two numerals, for evaluating \<open>fl_round\<close>.\<close>

lemma floor_rat_numeral: "\<lfloor>numeral a / numeral b :: rat\<rfloor> = numeral a div numeral b"
  by (metis floor_divide_of_int_eq of_int_numeral)

text \<open>
  The right-hand sides of the three yield assignments, and the text of a stored
  property.
\<close>

lemma power_rhs:
  "(''/Yield/Power'',
    case item2 state ''p'' ''vo'' of
      Inl e \<Rightarrow> Inl e
    | Inr vo \<Rightarrow> (case item2 state ''p'' ''cu'' of Inl e \<Rightarrow> Inl e | Inr cu \<Rightarrow> py_mul F vo cu))
   \<in> set (projection F state)"
  by (simp add: projection_def)

lemma system_rhs:
  "(''/Yield/System'',
    case item2 state ''b'' ''to'' of
      Inl e \<Rightarrow> Inl e
    | Inr v \<Rightarrow> py_truediv F v (fl_lit F 1000))
   \<in> set (projection F state)"
  by (simp add: projection_def)

lemma user_rhs:
  "(''/Yield/User'',
    case item2 state ''b'' ''ge'' of
      Inl e \<Rightarrow> Inl e
    | Inr v \<Rightarrow> py_truediv F v (fl_lit F 1000))
   \<in> set (projection F state)"
  by (simp add: projection_def)

lemma get_text_stored:
  "dbusservice s p = Some v \<Longrightarrow> map_of (main_textformats F) p = Some format \<Longrightarrow>
     get_text F s p = format p v"
  by (simp add: get_text_def getitem_def)

lemma yield_textformats:
  "map_of (main_textformats F) ''/Yield/Power'' = Some (fmt_w F)"
  "map_of (main_textformats F) ''/Yield/System'' = Some (fmt_kwh F)"
  "map_of (main_textformats F) ''/Yield/User'' = Some (fmt_kwh F)"
  by (simp_all add: main_textformats_def)

subsection \<open>Successful cycles\<close>

text \<open>
  Claim C1. When the fetch returns a state from which all nine right-hand sides
  evaluate, \<^verbatim>\<open>_update\<close> completes as a successful cycle and returns \<^verbatim>\<open>True\<close>.
  Each of the nine published properties then holds the value derived from the
  fetched state, whatever it held before (the only assumption on the prior
  store is that the paths are registered and that the update index is an
  integer \<open>i\<close>); the update index is \<open>(i + 1) mod 256\<close>; the time stamp of the
  last update is the reading of the clock; nothing else changes, apart from
  four debug entries in the log.
\<close>

theorem update_success:
  assumes "getRngBridgeState F env = Inr state"
    and "item2 state ''p'' ''vo'' = Inr vo"
    and "item2 state ''p'' ''cu'' = Inr cu"
    and "py_mul F vo cu = Inr pw"
    and "item2 state ''c'' ''st'' = Inr st"
    and "list_item state_map st = Inr pub"
    and "item2 state ''b'' ''to'' = Inr tot"
    and "py_truediv F tot (fl_lit F 1000) = Inr ysys"
    and "item2 state ''b'' ''ge'' = Inr ge"
    and "py_truediv F ge (fl_lit F 1000) = Inr yusr"
    and "item2 state ''b'' ''vo'' = Inr bvo"
    and "item2 state ''b'' ''cu'' = Inr bcu"
    and "item2 state ''o'' ''l'' = Inr ld"
    and "item2 state ''l'' ''cu'' = Inr lcu"
    and "registered s"
    and "dbusservice s ''/UpdateIndex'' = Some (PInt i)"
  shows "cycle_outcome F env s = Success \<and>
     update F env s =
       (Inr True,
        s\<lparr>dbusservice := (dbusservice s)
             (''/Pv/V'' \<mapsto> vo, ''/Yield/Power'' \<mapsto> pw, ''/State'' \<mapsto> pub,
              ''/Yield/System'' \<mapsto> ysys, ''/Yield/User'' \<mapsto> yusr,
              ''/Dc/0/Voltage'' \<mapsto> bvo, ''/Dc/0/Current'' \<mapsto> bcu,
              ''/Load/State'' \<mapsto> ld, ''/Load/I'' \<mapsto> lcu,
              ''/UpdateIndex'' \<mapsto> PInt ((i + 1) mod 256)),
           lastUpdate := PFloat (now env),
           logged := logged s @ [Debug, Debug, Debug, Debug]\<rparr>)"
  using try_block_success [OF assms]
  by (simp add: update_def cycle_outcome_def)

text \<open>
  The theorem at Scenario A of the specification, on a store in which an
  external client had set \<^verbatim>\<open>/Pv/V\<close> to 99 and the update index is 255.
\<close>

theorem update_success_witness:
  "update exact_floats (responding example_state) example_service =
     (Inr True,
      example_service\<lparr>dbusservice := (dbusservice example_service)
           (''/Pv/V'' \<mapsto> PFloat 40, ''/Yield/Power'' \<mapsto> PFloat 200, ''/State'' \<mapsto> PInt 7,
            ''/Yield/System'' \<mapsto> PFloat 123, ''/Yield/User'' \<mapsto> PFloat (9 / 2),
            ''/Dc/0/Voltage'' \<mapsto> PFloat 26, ''/Dc/0/Current'' \<mapsto> PFloat (24 / 5),
            ''/Load/State'' \<mapsto> PBool True, ''/Load/I'' \<mapsto> PFloat (6 / 5),
            ''/UpdateIndex'' \<mapsto> PInt 0),
         lastUpdate := PFloat 1700000000,
         logged := [Debug, Debug, Debug, Debug]\<rparr>)"
proof -
  have fetch: "getRngBridgeState exact_floats (responding example_state) = Inr example_state"
    by (simp add: example_fetch) (simp add: example_state_def)
  have idx: "dbusservice example_service ''/UpdateIndex'' = Some (PInt 255)"
    by (simp add: example_service_def)
  have "update exact_floats (responding example_state) example_service =
     (Inr True,
      example_service\<lparr>dbusservice := (dbusservice example_service)
           (''/Pv/V'' \<mapsto> PFloat 40, ''/Yield/Power'' \<mapsto> PFloat 200, ''/State'' \<mapsto> PInt 7,
            ''/Yield/System'' \<mapsto> PFloat 123, ''/Yield/User'' \<mapsto> PFloat (9 / 2),
            ''/Dc/0/Voltage'' \<mapsto> PFloat 26, ''/Dc/0/Current'' \<mapsto> PFloat (24 / 5),
            ''/Load/State'' \<mapsto> PBool True, ''/Load/I'' \<mapsto> PFloat (6 / 5),
            ''/UpdateIndex'' \<mapsto> PInt ((255 + 1) mod 256)),
         lastUpdate := PFloat (now (responding example_state)),
         logged := logged example_service @ [Debug, Debug, Debug, Debug]\<rparr>)"
    by (rule update_success [where cu = "PFloat 5" and st = "PInt 3" and tot = "PInt 123000"
            and ge = "PInt 4500", OF fetch _ _ _ _ _ _ _ _ _ _ _ _ _ example_registered idx,
          THEN conjunct2])
      (simp_all add: item2_def example_state_def exact_floats_def list_item_def state_map_def
        py_truediv_def)
  then show ?thesis
    by (simp add: responding_def example_service_def)
qed

text \<open>
  Claim C2. In a successful cycle on a state whose charge state code \<open>c.st\<close> is an
  integer \<open>d\<close> from 0 to 6, the property \<^verbatim>\<open>/State\<close> afterwards holds the entry at
  index \<open>d\<close> of the literal array \<open>[0, 0, 3, 7, 4, 5, 2]\<close>.
\<close>

theorem state_published:
  fixes F :: "'f float_ops"
  assumes "cycle_outcome F env s = Success"
    and "getRngBridgeState F env = Inr state"
    and "item2 state ''c'' ''st'' = Inr (PInt d)"
    and "0 \<le> d" and "d \<le> 6"
  shows "dbusservice (snd (update F env s)) ''/State'' =
     Some (PInt ([0, 0, 3, 7, 4, 5, 2] ! nat d))"
proof -
  obtain r s' where "try_block F env s = (r, s')" by (cases "try_block F env s")
  with assms(1) have tb: "try_block F env s = (None, s')"
    by (simp add: completed_outcome)
  from try_block_completed(2) [OF tb assms(2) state_rhs [OF assms(3)]]
  obtain v where v: "list_item state_map (PInt d) = Inr v" "dbusservice s' ''/State'' = Some v"
    by blast
  from assms(4,5) have
    "list_item state_map (PInt d :: 'f pyval) = Inr (PInt ([0, 0, 3, 7, 4, 5, 2] ! nat d))"
    by (simp add: list_item_def state_map_def)
  with v update_completed [OF tb] show ?thesis by simp
qed

text \<open>
  The seven codes on the example: the published states are 0, 0, 3, 7, 4, 5, 2.
\<close>

theorem state_published_witness:
  "map (\<lambda>d. dbusservice (snd (update exact_floats (responding (coded_state d)) example_service))
             ''/State'')
     [0, 1, 2, 3, 4, 5, 6] =
   map (\<lambda>v. Some (PInt v)) [0, 0, 3, 7, 4, 5, 2]"
proof -
  have table:
    "dbusservice (snd (update exact_floats (responding (coded_state d)) example_service)) ''/State'' =
       Some (PInt ([0, 0, 3, 7, 4, 5, 2] ! nat d))"
    if d: "0 \<le> d" "d \<le> 6" for d
  proof -
    from d have "list_item state_map (PInt d :: rat pyval) = Inr (PInt (state_map ! nat d))"
      by (simp add: list_item_def state_map_def)
    then have ok: "cycle_outcome exact_floats (responding (coded_state d)) example_service = Success"
      by (rule coded_outcome)
    have st: "item2 (coded_state d) ''c'' ''st'' = Inr (PInt d)"
      by (simp add: item2_def coded_state_def)
    show ?thesis by (rule state_published [OF ok coded_fetch st d])
  qed
  from table [of 0] table [of 1] table [of 2] table [of 3] table [of 4] table [of 5] table [of 6]
  show ?thesis by simp
qed

subsection \<open>Stored values and their text\<close>

text \<open>
  Claim C8. On every successful cycle the fetched state has the PV voltage
  \<^verbatim>\<open>p.vo\<close>, the PV current \<^verbatim>\<open>p.cu\<close> and the raw yields \<^verbatim>\<open>b.to\<close> and
  \<^verbatim>\<open>b.ge\<close>, and after the cycle \<^verbatim>\<open>/Yield/Power\<close> holds the value of
  \<^verbatim>\<open>p.vo * p.cu\<close> and \<^verbatim>\<open>/Yield/System\<close> and \<^verbatim>\<open>/Yield/User\<close> hold the values
  of \<^verbatim>\<open>b.to / 1000.0\<close> and \<^verbatim>\<open>b.ge / 1000.0\<close>: the result of the operator as it
  is, with no rounding by \<^verbatim>\<open>round\<close>. The rounding is in the text only: the text
  of each of the three properties is its formatter applied to the stored,
  unrounded value.
\<close>

theorem stored_values_unrounded:
  assumes "cycle_outcome F env s = Success"
    and "getRngBridgeState F env = Inr state"
  shows "\<exists>vo cu tot ge pw ysys yusr.
     item2 state ''p'' ''vo'' = Inr vo \<and> item2 state ''p'' ''cu'' = Inr cu \<and>
     item2 state ''b'' ''to'' = Inr tot \<and> item2 state ''b'' ''ge'' = Inr ge \<and>
     py_mul F vo cu = Inr pw \<and>
     py_truediv F tot (fl_lit F 1000) = Inr ysys \<and>
     py_truediv F ge (fl_lit F 1000) = Inr yusr \<and>
     dbusservice (snd (update F env s)) ''/Yield/Power'' = Some pw \<and>
     dbusservice (snd (update F env s)) ''/Yield/System'' = Some ysys \<and>
     dbusservice (snd (update F env s)) ''/Yield/User'' = Some yusr \<and>
     get_text F (snd (update F env s)) ''/Yield/Power'' = fmt_w F ''/Yield/Power'' pw \<and>
     get_text F (snd (update F env s)) ''/Yield/System'' = fmt_kwh F ''/Yield/System'' ysys \<and>
     get_text F (snd (update F env s)) ''/Yield/User'' = fmt_kwh F ''/Yield/User'' yusr"
proof -
  obtain r s' where "try_block F env s = (r, s')" by (cases "try_block F env s")
  with assms(1) have tb: "try_block F env s = (None, s')"
    by (simp add: completed_outcome)
  from update_completed [OF tb] have u: "snd (update F env s) = s'" by simp
  note written = try_block_completed(2) [OF tb assms(2)]
  from written [OF power_rhs] obtain pw where
    pw: "(case item2 state ''p'' ''vo'' of
            Inl e \<Rightarrow> Inl e
          | Inr vo \<Rightarrow> (case item2 state ''p'' ''cu'' of Inl e \<Rightarrow> Inl e
                       | Inr cu \<Rightarrow> py_mul F vo cu)) = Inr pw"
    and spw: "dbusservice s' ''/Yield/Power'' = Some pw"
    by (elim exE conjE)
  from pw obtain vo where vo: "item2 state ''p'' ''vo'' = Inr vo"
    by (cases "item2 state ''p'' ''vo''") simp_all
  from pw vo obtain cu where cu: "item2 state ''p'' ''cu'' = Inr cu"
    by (cases "item2 state ''p'' ''cu''") simp_all
  from pw vo cu have mul: "py_mul F vo cu = Inr pw" by simp
  from written [OF system_rhs] obtain ysys where
    ysys: "(case item2 state ''b'' ''to'' of
            Inl e \<Rightarrow> Inl e
          | Inr v \<Rightarrow> py_truediv F v (fl_lit F 1000)) = Inr ysys"
    and sys: "dbusservice s' ''/Yield/System'' = Some ysys"
    by (elim exE conjE)
  from ysys obtain tot where tot: "item2 state ''b'' ''to'' = Inr tot"
    by (cases "item2 state ''b'' ''to''") simp_all
  from ysys tot have dsys: "py_truediv F tot (fl_lit F 1000) = Inr ysys" by simp
  from written [OF user_rhs] obtain yusr where
    yusr: "(case item2 state ''b'' ''ge'' of
            Inl e \<Rightarrow> Inl e
          | Inr v \<Rightarrow> py_truediv F v (fl_lit F 1000)) = Inr yusr"
    and usr: "dbusservice s' ''/Yield/User'' = Some yusr"
    by (elim exE conjE)
  from yusr obtain ge where ge: "item2 state ''b'' ''ge'' = Inr ge"
    by (cases "item2 state ''b'' ''ge''") simp_all
  from yusr ge have dusr: "py_truediv F ge (fl_lit F 1000) = Inr yusr" by simp
  note tpw = get_text_stored [OF spw yield_textformats(1)]
  note tsys = get_text_stored [OF sys yield_textformats(2)]
  note tusr = get_text_stored [OF usr yield_textformats(3)]
  from vo cu tot ge mul dsys dusr spw sys usr tpw tsys tusr
  have all: "item2 state ''p'' ''vo'' = Inr vo \<and> item2 state ''p'' ''cu'' = Inr cu \<and>
     item2 state ''b'' ''to'' = Inr tot \<and> item2 state ''b'' ''ge'' = Inr ge \<and>
     py_mul F vo cu = Inr pw \<and>
     py_truediv F tot (fl_lit F 1000) = Inr ysys \<and>
     py_truediv F ge (fl_lit F 1000) = Inr yusr \<and>
     dbusservice s' ''/Yield/Power'' = Some pw \<and>
     dbusservice s' ''/Yield/System'' = Some ysys \<and>
     dbusservice s' ''/Yield/User'' = Some yusr \<and>
     get_text F s' ''/Yield/Power'' = fmt_w F ''/Yield/Power'' pw \<and>
     get_text F s' ''/Yield/System'' = fmt_kwh F ''/Yield/System'' ysys \<and>
     get_text F s' ''/Yield/User'' = fmt_kwh F ''/Yield/User'' yusr"
    by (intro conjI) assumption+
  show ?thesis
    unfolding u
    by (rule exI [of _ vo], rule exI [of _ cu], rule exI [of _ tot], rule exI [of _ ge],
        rule exI [of _ pw], rule exI [of _ ysys], rule exI [of _ yusr], rule all)
qed

text \<open>
  The theorem at the state with the fine-grained readings: the product
  \<^verbatim>\<open>12.345 * 2\<close> is stored as 24.69 and shown as \<^verbatim>\<open>24.7 W\<close>, and the raw
  12345 is stored as 12.345.
\<close>

theorem stored_values_unrounded_witness:
  "dbusservice (snd (update exact_floats (responding fine_state) example_service))
       ''/Yield/Power'' = Some (PFloat (2469 / 100)) \<and>
   dbusservice (snd (update exact_floats (responding fine_state) example_service))
       ''/Yield/System'' = Some (PFloat (12345 / 1000)) \<and>
   dbusservice (snd (update exact_floats (responding fine_state) example_service))
       ''/Yield/User'' = Some (PFloat (9 / 2)) \<and>
   get_text exact_floats (snd (update exact_floats (responding fine_state) example_service))
       ''/Yield/Power'' = Inr (Rendering (PFloat (247 / 10)) '' W'') \<and>
   get_text exact_floats (snd (update exact_floats (responding fine_state) example_service))
       ''/Yield/User'' = Inr (Rendering (PFloat (9 / 2)) '' KWh'')"
proof -
  let ?D = "dbusservice (snd (update exact_floats (responding fine_state) example_service))"
  let ?T = "get_text exact_floats
      (snd (update exact_floats (responding fine_state) example_service))"
  from stored_values_unrounded [OF fine_outcome fine_fetch]
  obtain vo cu tot ge pw ysys yusr where
    vo: "item2 fine_state ''p'' ''vo'' = Inr vo" and cu: "item2 fine_state ''p'' ''cu'' = Inr cu"
    and tot: "item2 fine_state ''b'' ''to'' = Inr tot"
    and ge: "item2 fine_state ''b'' ''ge'' = Inr ge"
    and mul: "py_mul exact_floats vo cu = Inr pw"
    and dsys: "py_truediv exact_floats tot (fl_lit exact_floats 1000) = Inr ysys"
    and dusr: "py_truediv exact_floats ge (fl_lit exact_floats 1000) = Inr yusr"
    and spw: "?D ''/Yield/Power'' = Some pw"
    and sys: "?D ''/Yield/System'' = Some ysys"
    and usr: "?D ''/Yield/User'' = Some yusr"
    and tpw: "?T ''/Yield/Power'' = fmt_w exact_floats ''/Yield/Power'' pw"
    and tusr: "?T ''/Yield/User'' = fmt_kwh exact_floats ''/Yield/User'' yusr"
    by (elim exE conjE)
  from vo have vo': "vo = PFloat (12345 / 1000)" by (simp add: item2_def fine_state_def)
  from cu have cu': "cu = PInt 2" by (simp add: item2_def fine_state_def)
  from tot have tot': "tot = PInt 12345" by (simp add: item2_def fine_state_def)
  from ge have ge': "ge = PInt 4500" by (simp add: item2_def fine_state_def)
  from mul have pw': "pw = PFloat (2469 / 100)"
    by (simp add: vo' cu' mul_float_int_def exact_floats_def)
  from dsys have ysys': "ysys = PFloat (12345 / 1000)"
    by (simp add: tot' py_truediv_def exact_floats_def)
  from dusr have yusr': "yusr = PFloat (9 / 2)"
    by (simp add: ge' py_truediv_def exact_floats_def)
  have w: "fmt_w exact_floats ''/Yield/Power'' (PFloat (2469 / 100)) =
      Inr (Rendering (PFloat (247 / 10)) '' W'')"
    by (simp add: fmt_w_def py_round_def exact_floats_def Let_def floor_rat_numeral)
  have k: "fmt_kwh exact_floats ''/Yield/User'' (PFloat (9 / 2)) =
      Inr (Rendering (PFloat (9 / 2)) '' KWh'')"
    by (simp add: fmt_kwh_def py_round_def exact_floats_def Let_def)
  from spw sys usr tpw tusr show ?thesis
    unfolding pw' ysys' yusr' w k by (intro conjI) assumption+
qed

subsection \<open>The update index\<close>

text \<open>
  Claim C3. On a service whose paths are registered and whose update index is an
  integer \<open>i\<close>, every cycle returns \<^verbatim>\<open>True\<close>. After a completed cycle, successful
  or ended by a recoverable fault, the update index is \<open>(i + 1) mod 256\<close>, which
  lies between 0 and 255: it was incremented once. After an unhandled fault it
  is still \<open>i\<close>.
\<close>

theorem update_index:
  assumes "registered s" and "dbusservice s ''/UpdateIndex'' = Some (PInt i)"
  shows "fst (update F env s) = Inr True \<and>
     dbusservice (snd (update F env s)) ''/UpdateIndex'' =
       Some (PInt (case cycle_outcome F env s of
                     Success \<Rightarrow> (i + 1) mod 256
                   | RecoverableFault \<Rightarrow> (i + 1) mod 256
                   | UnhandledFault \<Rightarrow> i)) \<and>
     0 \<le> (i + 1) mod 256 \<and> (i + 1) mod 256 < 256"
  using index_by_outcome [OF assms] .

text \<open>
  A successful cycle, a timeout and a state that lacks the charge state, from
  index 255: the first two wrap to 0, the third leaves 255.
\<close>

theorem update_index_witness:
  "dbusservice (snd (update exact_floats (responding example_state) example_service))
       ''/UpdateIndex'' = Some (PInt 0) \<and>
   dbusservice (snd (update exact_floats (failing RequestsTimeout) example_service))
       ''/UpdateIndex'' = Some (PInt 0) \<and>
   dbusservice (snd (update exact_floats (responding partial_state) example_service))
       ''/UpdateIndex'' = Some (PInt 255)"
proof -
  have "list_item state_map (PInt 3 :: rat pyval) = Inr (PInt 7)"
    by (simp add: list_item_def state_map_def)
  then have a: "cycle_outcome exact_floats (responding example_state) example_service = Success"
    unfolding example_coded by (rule coded_outcome)
  have b: "cycle_outcome exact_floats (failing RequestsTimeout) example_service = RecoverableFault"
    by (simp add: outcome_fetch_failed [OF failing_fetch])
  note u = update_index [OF example_registered example_index, of exact_floats]
  from u [of "responding example_state"] u [of "failing RequestsTimeout"]
    u [of "responding partial_state"] a b partial_outcome
  show ?thesis by simp
qed

subsection \<open>States of an unexpected shape\<close>

text \<open>
  Claim C5, as the code has it. A charge state code outside 0..6 fails only when
  it is at least 7 or below -7: the lookup raises IndexError, the cycle ends in
  the generic handler as an unhandled fault and \<^verbatim>\<open>/State\<close> keeps its value. For a
  code from -7 to -1 Python's negative indexing applies: the lookup succeeds
  with the entry at index \<open>d + 7\<close>, and a successful cycle publishes it.
\<close>

theorem state_code_outside_table:
  fixes F :: "'f float_ops"
  assumes "getRngBridgeState F env = Inr state"
    and "item2 state ''c'' ''st'' = Inr (PInt d)"
    and "d < 0 \<or> 7 \<le> d"
  shows "if - 7 \<le> d \<and> d < 0 then
       list_item state_map (PInt d :: 'f pyval) = Inr (PInt (state_map ! nat (d + 7))) \<and>
       (cycle_outcome F env s = Success \<longrightarrow>
          dbusservice (snd (update F env s)) ''/State'' = Some (PInt (state_map ! nat (d + 7))))
     else
       list_item state_map (PInt d :: 'f pyval) = Inl IndexError \<and>
       cycle_outcome F env s = UnhandledFault \<and> fst (update F env s) = Inr True \<and>
       dbusservice (snd (update F env s)) ''/State'' = dbusservice s ''/State''"
proof (cases "- 7 \<le> d \<and> d < 0")
  case True
  then have li: "list_item state_map (PInt d :: 'f pyval) = Inr (PInt (state_map ! nat (d + 7)))"
    by (simp add: list_item_def state_map_def)
  have "dbusservice (snd (update F env s)) ''/State'' = Some (PInt (state_map ! nat (d + 7)))"
    if ok: "cycle_outcome F env s = Success"
  proof -
    obtain r s' where "try_block F env s = (r, s')" by (cases "try_block F env s")
    with ok have tb: "try_block F env s = (None, s')"
      by (simp add: completed_outcome)
    from try_block_completed(2) [OF tb assms(1) state_rhs [OF assms(2)]] li
    have "dbusservice s' ''/State'' = Some (PInt (state_map ! nat (d + 7)))"
      by simp
    with update_completed [OF tb] show ?thesis by simp
  qed
  with True li show ?thesis by simp
next
  case False
  with assms(3) have li: "list_item state_map (PInt d :: 'f pyval) = Inl IndexError"
    by (auto simp: list_item_def state_map_def)
  from state_rhs [OF assms(2), of F] li
  have rhs: "(''/State'', Inl IndexError) \<in> set (projection F state)" by simp
  from raising_rhs [OF assms(1) rhs, of s] obtain e' s' where
    tb: "try_block F env s = (Some e', s')" and e': "\<not> recoverable e'"
    and keep: "dbusservice s' ''/State'' = dbusservice s ''/State''"
    by blast
  from update_unhandled [OF tb e'] tb e' keep li False show ?thesis
    by (simp add: cycle_outcome_def)
qed

text \<open>
  The theorem at the codes -1 and 7.
\<close>

theorem state_code_outside_table_witness:
  "dbusservice (snd (update exact_floats (responding (coded_state (- 1))) example_service))
       ''/State'' = Some (PInt 2) \<and>
   cycle_outcome exact_floats (responding (coded_state 7)) example_service = UnhandledFault \<and>
   dbusservice (snd (update exact_floats (responding (coded_state 7)) example_service))
       ''/State'' = Some (PInt 4)"
proof -
  have st: "item2 (coded_state d) ''c'' ''st'' = Inr (PInt d)" for d
    by (simp add: item2_def coded_state_def)
  have "list_item state_map (PInt (- 1) :: rat pyval) = Inr (PInt 2)"
    by (simp add: list_item_def state_map_def)
  then have ok: "cycle_outcome exact_floats (responding (coded_state (- 1))) example_service = Success"
    by (rule coded_outcome)
  have old: "dbusservice example_service ''/State'' = Some (PInt 4)"
    by (simp add: example_service_def)
  from state_code_outside_table [OF coded_fetch st, of "- 1" example_service]
    state_code_outside_table [OF coded_fetch st, of 7 example_service] ok old
  show ?thesis by (simp add: state_map_def)
qed

text \<open>
  The claim as stated fails at the code -1: the lookup yields 2, the entry for
  code 6, and the cycle is successful and publishes it.
\<close>

theorem negative_code_published:
  "list_item state_map (PInt (- 1) :: rat pyval) = Inr (PInt 2) \<and>
   cycle_outcome exact_floats (responding (coded_state (- 1))) example_service = Success \<and>
   dbusservice (snd (update exact_floats (responding (coded_state (- 1))) example_service))
       ''/State'' = Some (PInt 2)"
proof -
  have li: "list_item state_map (PInt (- 1) :: rat pyval) = Inr (PInt 2)"
    by (simp add: list_item_def state_map_def)
  from li coded_outcome [OF li] coded_update [OF li] show ?thesis by simp
qed

text \<open>
  Claim C6, as the code has it. When the fetched document is such that one of
  the nine right-hand sides raises (a required field is missing, a value that
  is subscripted is not an object, an operand has a type the operator rejects),
  the exception is a KeyError, TypeError, IndexError or OverflowError, none of
  which the first clause catches: the cycle is an unhandled fault. It returns
  \<^verbatim>\<open>True\<close>, the update index and the time of the last update are unchanged, and
  the property whose right-hand side raised keeps its value: it is not reset.
\<close>

theorem malformed_state_unhandled:
  assumes "getRngBridgeState F env = Inr state"
    and "(p, Inl e) \<in> set (projection F state)"
  shows "cycle_outcome F env s = UnhandledFault \<and> fst (update F env s) = Inr True \<and>
     dbusservice (snd (update F env s)) ''/UpdateIndex'' = dbusservice s ''/UpdateIndex'' \<and>
     lastUpdate (snd (update F env s)) = lastUpdate s \<and>
     dbusservice (snd (update F env s)) p = dbusservice s p"
proof -
  from raising_rhs [OF assms, of s] obtain e' s' where
    tb: "try_block F env s = (Some e', s')" and e': "\<not> recoverable e'"
    and keep: "dbusservice s' ''/UpdateIndex'' = dbusservice s ''/UpdateIndex''"
      "lastUpdate s' = lastUpdate s" "dbusservice s' p = dbusservice s p"
    by blast
  from update_unhandled [OF tb e'] tb e' keep show ?thesis
    by (simp add: cycle_outcome_def)
qed

text \<open>
  The theorem at a state that stops after the PV readings, for \<^verbatim>\<open>/State\<close>.
\<close>

theorem malformed_state_unhandled_witness:
  "cycle_outcome exact_floats (responding partial_state) example_service = UnhandledFault \<and>
   fst (update exact_floats (responding partial_state) example_service) = Inr True \<and>
   dbusservice (snd (update exact_floats (responding partial_state) example_service))
       ''/UpdateIndex'' = Some (PInt 255) \<and>
   lastUpdate (snd (update exact_floats (responding partial_state) example_service)) =
       PFloat 1699999998 \<and>
   dbusservice (snd (update exact_floats (responding partial_state) example_service))
       ''/State'' = Some (PInt 4)"
proof -
  have rhs: "(''/State'', Inl (KeyError ''c'')) \<in> set (projection exact_floats partial_state)"
    by (simp add: projection_def item2_def partial_state_def)
  from malformed_state_unhandled [OF partial_fetch rhs, of example_service]
  show ?thesis by (simp add: example_service_def)
qed

text \<open>
  The claim as stated fails at a truthy document without \<open>p.vo\<close>: the cycle is
  an unhandled fault and all that \<^verbatim>\<open>_update\<close> does is log; no property is reset
  and the update index stays 255.
\<close>

theorem missing_field_not_recoverable:
  "truthy exact_floats headless_state \<and>
   item2 headless_state ''p'' ''vo'' = Inl (KeyError ''vo'') \<and>
   cycle_outcome exact_floats (responding headless_state) example_service = UnhandledFault \<and>
   update exact_floats (responding headless_state) example_service =
     (Inr True, example_service\<lparr>logged := [Critical]\<rparr>)"
proof -
  have "update exact_floats (responding headless_state) example_service =
      (Inr True, example_service\<lparr>logged := logged example_service @ [Critical]\<rparr>)"
    by (rule update_unhandled [OF headless_try_block]) simp
  then show ?thesis
    by (simp add: cycle_outcome_def headless_try_block)
      (simp add: headless_state_def item2_def example_service_def)
qed

text \<open>
  Claim C7, as the code has it. A cycle that ends as an unhandled fault returns
  \<^verbatim>\<open>True\<close> and leaves the update index and the time of the last update
  unchanged. If the exception was raised by the fetch, no property has changed.
  If it was raised after the fetch, there is a number \<open>k\<close> of assignments of the
  \<^verbatim>\<open>try\<close> block that were made before the exception: each of the first \<open>k\<close>
  properties, in the order of the source, was registered and now holds the value
  that its assignment derived from the fetched state; every other property holds
  its value of before the cycle; and if \<open>k\<close> is less than nine, assignment
  \<open>k\<close> is one that raises, because its right-hand side raises or because its
  property is not registered. So \<open>k\<close> is the position of the first assignment
  that raises, or nine, and nothing that was assigned before it is rolled back.
\<close>

theorem unhandled_fault_effects:
  assumes "cycle_outcome F env s = UnhandledFault"
  shows "fst (update F env s) = Inr True \<and>
     dbusservice (snd (update F env s)) ''/UpdateIndex'' = dbusservice s ''/UpdateIndex'' \<and>
     lastUpdate (snd (update F env s)) = lastUpdate s \<and>
     (case getRngBridgeState F env of
        Inl e \<Rightarrow> dbusservice (snd (update F env s)) = dbusservice s
      | Inr state \<Rightarrow>
          \<exists>k \<le> length (projection F state).
            (\<forall>a \<in> set (take k (projection F state)). dbusservice s (fst a) \<noteq> None \<and>
               (\<exists>v. snd a = Inr v \<and> dbusservice (snd (update F env s)) (fst a) = Some v)) \<and>
            (\<forall>p. p \<notin> fst ` set (take k (projection F state)) \<longrightarrow>
               dbusservice (snd (update F env s)) p = dbusservice s p) \<and>
            (k < length (projection F state) \<longrightarrow>
               (\<exists>e. snd (projection F state ! k) = Inl e) \<or>
               dbusservice s (fst (projection F state ! k)) = None))"
proof -
  obtain r s' where tb: "try_block F env s = (r, s')" by (cases "try_block F env s")
  with assms obtain e where r: "r = Some e" and e: "\<not> recoverable e"
    by (auto simp: cycle_outcome_def split: option.splits if_splits)
  from tb r have tb': "try_block F env s = (Some e, s')" by simp
  from update_unhandled [OF tb' e]
  have u: "fst (update F env s) = Inr True" "dbusservice (snd (update F env s)) = dbusservice s'"
    "lastUpdate (snd (update F env s)) = lastUpdate s'"
    by simp_all
  show ?thesis
  proof (cases "getRngBridgeState F env")
    case (Inl e0)
    with tb' try_block_fetch_failed [OF Inl, of s] have "s' = s" by simp
    with u Inl show ?thesis by simp
  next
    case (Inr state)
    let ?tail = "[log_item Debug ''/Yield/Power'', log_item Debug ''/Dc/0/Voltage'',
                  log_item Debug ''/Dc/0/Current'', logging Debug, increment_index F,
                  set_lastUpdate (PFloat (now env))]"
    obtain r1 s1 where a: "run (map assign (projection F state)) s = (r1, s1)"
      by (cases "run (map assign (projection F state)) s")
    have "dbusservice s' = dbusservice s1"
    proof (cases r1)
      case (Some e1)
      with tb' Inr a have "s' = s1" by (simp add: try_block_def run_append)
      then show ?thesis by simp
    next
      case None
      with tb' Inr a have t: "run ?tail s1 = (Some e, s')"
        by (simp add: try_block_def run_append)
      from tail_cases [OF t] show ?thesis by simp
    qed
    with u(2) have eq: "dbusservice (snd (update F env s)) = dbusservice s1" by simp
    from assigns_prefix [OF a projection_distinct] obtain k where
      kk: "k \<le> length (projection F state) \<and>
        (\<forall>a \<in> set (take k (projection F state)). dbusservice s (fst a) \<noteq> None \<and>
           (\<exists>v. snd a = Inr v \<and> dbusservice s1 (fst a) = Some v)) \<and>
        (\<forall>p. p \<notin> fst ` set (take k (projection F state)) \<longrightarrow>
           dbusservice s1 p = dbusservice s p) \<and>
        (r1 = None \<longrightarrow> k = length (projection F state)) \<and>
        (r1 \<noteq> None \<longrightarrow> k < length (projection F state) \<and>
           ((\<exists>e. snd (projection F state ! k) = Inl e) \<or>
            dbusservice s (fst (projection F state ! k)) = None))"
      unfolding Bex_def by (erule exE)
    from kk have k: "k \<le> length (projection F state)" by (elim conjE)
    from kk have wr: "\<forall>a \<in> set (take k (projection F state)). dbusservice s (fst a) \<noteq> None \<and>
           (\<exists>v. snd a = Inr v \<and> dbusservice s1 (fst a) = Some v)"
      by (elim conjE)
    from kk have fr: "\<forall>p. p \<notin> fst ` set (take k (projection F state)) \<longrightarrow>
           dbusservice s1 p = dbusservice s p"
      by (elim conjE)
    from kk have fin: "r1 = None \<longrightarrow> k = length (projection F state)" by (elim conjE)
    from kk have fail: "r1 \<noteq> None \<longrightarrow> k < length (projection F state) \<and>
           ((\<exists>e. snd (projection F state ! k) = Inl e) \<or>
            dbusservice s (fst (projection F state ! k)) = None)"
      by (elim conjE)
    have stop: "k < length (projection F state) \<longrightarrow>
        (\<exists>e. snd (projection F state ! k) = Inl e) \<or>
        dbusservice s (fst (projection F state ! k)) = None"
    proof
      assume lt: "k < length (projection F state)"
      have "r1 \<noteq> None"
      proof
        assume "r1 = None"
        with fin have "k = length (projection F state)" by (rule mp)
        with lt show False by simp
      qed
      with fail have "k < length (projection F state) \<and>
           ((\<exists>e. snd (projection F state ! k) = Inl e) \<or>
            dbusservice s (fst (projection F state ! k)) = None)"
        by (rule mp)
      then show "(\<exists>e. snd (projection F state ! k) = Inl e) \<or>
          dbusservice s (fst (projection F state ! k)) = None"
        by (rule conjunct2)
    qed
    have stores: "\<exists>k \<le> length (projection F state).
        (\<forall>a \<in> set (take k (projection F state)). dbusservice s (fst a) \<noteq> None \<and>
           (\<exists>v. snd a = Inr v \<and> dbusservice (snd (update F env s)) (fst a) = Some v)) \<and>
        (\<forall>p. p \<notin> fst ` set (take k (projection F state)) \<longrightarrow>
           dbusservice (snd (update F env s)) p = dbusservice s p) \<and>
        (k < length (projection F state) \<longrightarrow>
           (\<exists>e. snd (projection F state ! k) = Inl e) \<or>
           dbusservice s (fst (projection F state ! k)) = None)"
      unfolding eq using k wr fr stop
      by (intro exI [of _ k] conjI) assumption+
    have first: "fst (update F env s) = Inr True \<and>
        dbusservice (snd (update F env s)) ''/UpdateIndex'' = dbusservice s ''/UpdateIndex'' \<and>
        lastUpdate (snd (update F env s)) = lastUpdate s"
      using try_block_raised [OF tb' Inr] u by simp
    from first stores show ?thesis unfolding Inr sum.case by (elim conjE, intro conjI) assumption+
  qed
qed

text \<open>
  The theorem at a fetch that raises an exception of another class, and at the
  state that stops after the PV readings: there the theorem leaves \<open>k = 2\<close>
  only, so that \<^verbatim>\<open>/Pv/V\<close> and \<^verbatim>\<open>/Yield/Power\<close> hold their new values
  and \<^verbatim>\<open>/State\<close> and \<^verbatim>\<open>/Load/I\<close> their old ones.
\<close>

theorem unhandled_fault_effects_witness:
  "fst (update exact_floats (failing (OtherException ''TooManyRedirects'')) example_service) =
       Inr True \<and>
   dbusservice (snd (update exact_floats (failing (OtherException ''TooManyRedirects''))
       example_service)) = dbusservice example_service \<and>
   dbusservice (snd (update exact_floats (responding partial_state) example_service))
       ''/UpdateIndex'' = Some (PInt 255) \<and>
   lastUpdate (snd (update exact_floats (responding partial_state) example_service)) =
       PFloat 1699999998 \<and>
   dbusservice (snd (update exact_floats (responding partial_state) example_service))
       ''/Pv/V'' = Some (PFloat 40) \<and>
   dbusservice (snd (update exact_floats (responding partial_state) example_service))
       ''/Yield/Power'' = Some (PFloat 200) \<and>
   dbusservice (snd (update exact_floats (responding partial_state) example_service))
       ''/State'' = Some (PInt 4) \<and>
   dbusservice (snd (update exact_floats (responding partial_state) example_service))
       ''/Load/I'' = Some (PFloat 1)"
proof -
  let ?P = "projection exact_floats partial_state"
  let ?D = "dbusservice (snd (update exact_floats (responding partial_state) example_service))"
  have a: "cycle_outcome exact_floats (failing (OtherException ''TooManyRedirects''))
      example_service = UnhandledFault"
    by (simp add: outcome_fetch_failed [OF failing_fetch])
  from unhandled_fault_effects [OF a]
  have failed: "fst (update exact_floats (failing (OtherException ''TooManyRedirects''))
        example_service) = Inr True \<and>
      dbusservice (snd (update exact_floats (failing (OtherException ''TooManyRedirects''))
        example_service)) = dbusservice example_service"
    by (simp add: failing_fetch)
  note p = unhandled_fault_effects [OF partial_outcome]
  from p have kept: "?D ''/UpdateIndex'' = Some (PInt 255) \<and>
      lastUpdate (snd (update exact_floats (responding partial_state) example_service)) =
        PFloat 1699999998"
    by (simp add: example_service_def)
  from p have "\<exists>k \<le> length ?P.
      (\<forall>a \<in> set (take k ?P). dbusservice example_service (fst a) \<noteq> None \<and>
         (\<exists>v. snd a = Inr v \<and> ?D (fst a) = Some v)) \<and>
      (\<forall>p. p \<notin> fst ` set (take k ?P) \<longrightarrow> ?D p = dbusservice example_service p) \<and>
      (k < length ?P \<longrightarrow>
         (\<exists>e. snd (?P ! k) = Inl e) \<or> dbusservice example_service (fst (?P ! k)) = None)"
    unfolding partial_fetch sum.case by (elim conjE)
  then obtain k where kk: "k \<le> length ?P \<and>
      (\<forall>a \<in> set (take k ?P). dbusservice example_service (fst a) \<noteq> None \<and>
         (\<exists>v. snd a = Inr v \<and> ?D (fst a) = Some v)) \<and>
      (\<forall>p. p \<notin> fst ` set (take k ?P) \<longrightarrow> ?D p = dbusservice example_service p) \<and>
      (k < length ?P \<longrightarrow>
         (\<exists>e. snd (?P ! k) = Inl e) \<or> dbusservice example_service (fst (?P ! k)) = None)"
    unfolding Bex_def by (erule exE)
  from kk have wr: "\<forall>a \<in> set (take k ?P). dbusservice example_service (fst a) \<noteq> None \<and>
         (\<exists>v. snd a = Inr v \<and> ?D (fst a) = Some v)"
    by (elim conjE)
  from kk have fr: "\<forall>p. p \<notin> fst ` set (take k ?P) \<longrightarrow> ?D p = dbusservice example_service p"
    by (elim conjE)
  from kk have stop: "k < length ?P \<longrightarrow>
         (\<exists>e. snd (?P ! k) = Inl e) \<or> dbusservice example_service (fst (?P ! k)) = None"
    by (elim conjE)
  have len: "length ?P = 9" by (simp add: partial_projection)
  have low: "\<not> k < 2"
  proof
    assume lt: "k < 2"
    with len have "k < length ?P" by simp
    with stop have d: "(\<exists>e. snd (?P ! k) = Inl e) \<or>
        dbusservice example_service (fst (?P ! k)) = None"
      by (rule mp)
    from lt have "k = 0 \<or> k = 1" by arith
    then show False
    proof
      assume "k = 0"
      with d show False by (simp add: partial_projection example_service_def)
    next
      assume "k = 1"
      with d show False by (simp add: partial_projection example_service_def)
    qed
  qed
  have high: "\<not> 2 < k"
  proof
    assume gt: "2 < k"
    with len have "2 < length (take k ?P)" by simp
    then have "take k ?P ! 2 \<in> set (take k ?P)" by (rule nth_mem)
    moreover from gt have "take k ?P ! 2 = ?P ! 2" by simp
    ultimately have "?P ! 2 \<in> set (take k ?P)" by simp
    with wr have "dbusservice example_service (fst (?P ! 2)) \<noteq> None \<and>
        (\<exists>v. snd (?P ! 2) = Inr v \<and> ?D (fst (?P ! 2)) = Some v)"
      by (rule bspec)
    then show False by (simp add: partial_projection)
  qed
  from low high have k: "k = 2" by arith
  have tk: "take k ?P = [(''/Pv/V'', Inr (PFloat 40)), (''/Yield/Power'', Inr (PFloat 200))]"
    by (simp add: k partial_projection)
  from wr have written: "?D ''/Pv/V'' = Some (PFloat 40) \<and> ?D ''/Yield/Power'' = Some (PFloat 200)"
    unfolding tk by simp
  from fr have "?D ''/State'' = dbusservice example_service ''/State'' \<and>
      ?D ''/Load/I'' = dbusservice example_service ''/Load/I''"
    unfolding tk by simp
  then have unchanged: "?D ''/State'' = Some (PInt 4) \<and> ?D ''/Load/I'' = Some (PFloat 1)"
    by (simp add: example_service_def)
  from failed kept written unchanged show ?thesis by (elim conjE, intro conjI) assumption+
qed

text \<open>
  The claim as stated fails at the state that stops after the PV readings: the
  cycle is an unhandled fault, and \<^verbatim>\<open>/Pv/V\<close> and \<^verbatim>\<open>/Yield/Power\<close> have changed.
\<close>

theorem partial_writes_remain:
  "cycle_outcome exact_floats (responding partial_state) example_service = UnhandledFault \<and>
   dbusservice example_service ''/Pv/V'' = Some (PInt 99) \<and>
   dbusservice (snd (update exact_floats (responding partial_state) example_service))
       ''/Pv/V'' = Some (PFloat 40) \<and>
   dbusservice example_service ''/Yield/Power'' = Some (PFloat 150) \<and>
   dbusservice (snd (update exact_floats (responding partial_state) example_service))
       ''/Yield/Power'' = Some (PFloat 200)"
proof -
  have "update exact_floats (responding partial_state) example_service =
      (Inr True,
       example_service\<lparr>dbusservice := (dbusservice example_service)
           (''/Pv/V'' \<mapsto> PFloat 40, ''/Yield/Power'' \<mapsto> PFloat 200),
         logged := logged example_service @ [Critical]\<rparr>)"
    using update_unhandled [OF partial_try_block] by simp
  then show ?thesis
    by (simp add: partial_outcome) (simp add: example_service_def)
qed

subsection \<open>Recoverable faults\<close>

text \<open>
  Claim C4. Let the fetch of each of \<open>N \<ge> 1\<close> consecutive cycles raise an exception
  that the first clause catches (ValueError, a connection error or a timeout),
  on a service whose paths are registered and whose update index is an integer
  \<open>i\<close>. Whatever the properties held before, the first of these cycles returns
  \<^verbatim>\<open>True\<close> and leaves the nine published properties at their defaults (0, and
  \<^verbatim>\<open>False\<close> for \<^verbatim>\<open>/Load/State\<close>) and the update index at \<open>(i + 1) mod 256\<close>;
  after all \<open>N\<close> cycles the nine properties hold exactly these defaults and the
  update index is \<open>(i + N) mod 256\<close>. The time of the last update is unchanged;
  nothing else changes but the log, which has one critical entry per cycle.
\<close>

theorem recoverable_faults_reset:
  assumes "envs \<noteq> []" and "\<forall>env \<in> set envs. fetch_fault F env"
    and "registered s" and "dbusservice s ''/UpdateIndex'' = Some (PInt i)"
  shows "update F (hd envs) s =
       (Inr True,
        s\<lparr>dbusservice := (dbusservice s)
           (''/Pv/V'' \<mapsto> PInt 0, ''/Yield/Power'' \<mapsto> PInt 0, ''/Yield/System'' \<mapsto> PInt 0,
            ''/Yield/User'' \<mapsto> PInt 0, ''/State'' \<mapsto> PInt 0, ''/Dc/0/Voltage'' \<mapsto> PInt 0,
            ''/Dc/0/Current'' \<mapsto> PInt 0, ''/Load/State'' \<mapsto> PBool False, ''/Load/I'' \<mapsto> PInt 0,
            ''/UpdateIndex'' \<mapsto> PInt ((i + 1) mod 256)),
          logged := logged s @ [Critical]\<rparr>) \<and>
     updates F envs s =
       (Inr True,
        s\<lparr>dbusservice := (dbusservice s)
           (''/Pv/V'' \<mapsto> PInt 0, ''/Yield/Power'' \<mapsto> PInt 0, ''/Yield/System'' \<mapsto> PInt 0,
            ''/Yield/User'' \<mapsto> PInt 0, ''/State'' \<mapsto> PInt 0, ''/Dc/0/Voltage'' \<mapsto> PInt 0,
            ''/Dc/0/Current'' \<mapsto> PInt 0, ''/Load/State'' \<mapsto> PBool False, ''/Load/I'' \<mapsto> PInt 0,
            ''/UpdateIndex'' \<mapsto> PInt ((i + int (length envs)) mod 256)),
          logged := logged s @ replicate (length envs) Critical\<rparr>) \<and>
     lastUpdate (snd (update F (hd envs) s)) = lastUpdate s \<and>
     lastUpdate (snd (updates F envs s)) = lastUpdate s"
proof -
  from assms(1) obtain env rest where envs: "envs = env # rest" by (cases envs) auto
  with assms(2) have all: "\<forall>env \<in> set (env # rest). fetch_fault F env" by simp
  then obtain e where e: "getRngBridgeState F env = Inl e" "recoverable e"
    by (auto simp: fetch_fault_def split: sum.splits)
  have len: "i + 1 + int (length rest) = i + int (length envs)"
    by (simp add: envs)
  note one = update_fetch_fault [OF assms(3,4) e]
  note many = updates_fetch_faults [OF all assms(3,4), unfolded len]
  have "length envs = Suc (length rest)" by (simp add: envs)
  with one many show ?thesis by (simp add: envs)
qed

text \<open>
  Three faults in a row, from index 255.
\<close>

theorem recoverable_faults_reset_witness:
  "updates exact_floats
     [failing RequestsTimeout, failing RequestsConnectionError, failing JSONDecodeError]
     example_service =
   (Inr True,
    example_service\<lparr>dbusservice := (dbusservice example_service)
       (''/Pv/V'' \<mapsto> PInt 0, ''/Yield/Power'' \<mapsto> PInt 0, ''/Yield/System'' \<mapsto> PInt 0,
        ''/Yield/User'' \<mapsto> PInt 0, ''/State'' \<mapsto> PInt 0, ''/Dc/0/Voltage'' \<mapsto> PInt 0,
        ''/Dc/0/Current'' \<mapsto> PInt 0, ''/Load/State'' \<mapsto> PBool False, ''/Load/I'' \<mapsto> PInt 0,
        ''/UpdateIndex'' \<mapsto> PInt 2),
      logged := [Critical, Critical, Critical]\<rparr>) \<and>
   lastUpdate (snd (updates exact_floats
     [failing RequestsTimeout, failing RequestsConnectionError, failing JSONDecodeError]
     example_service)) = PFloat 1699999998"
proof -
  have faults: "\<forall>env \<in> set [failing RequestsTimeout, failing RequestsConnectionError,
      failing JSONDecodeError]. fetch_fault exact_floats env"
    by (simp add: failing_fault)
  have "[failing RequestsTimeout, failing RequestsConnectionError, failing JSONDecodeError] \<noteq> []"
    by simp
  from recoverable_faults_reset [OF this faults example_registered example_index]
  have "updates exact_floats
     [failing RequestsTimeout, failing RequestsConnectionError, failing JSONDecodeError]
     example_service =
   (Inr True,
    example_service\<lparr>dbusservice := (dbusservice example_service)
       (''/Pv/V'' \<mapsto> PInt 0, ''/Yield/Power'' \<mapsto> PInt 0, ''/Yield/System'' \<mapsto> PInt 0,
        ''/Yield/User'' \<mapsto> PInt 0, ''/State'' \<mapsto> PInt 0, ''/Dc/0/Voltage'' \<mapsto> PInt 0,
        ''/Dc/0/Current'' \<mapsto> PInt 0, ''/Load/State'' \<mapsto> PBool False, ''/Load/I'' \<mapsto> PInt 0,
        ''/UpdateIndex'' \<mapsto> PInt ((255 + int (length
           [failing RequestsTimeout, failing RequestsConnectionError, failing JSONDecodeError]))
           mod 256)),
      logged := logged example_service @ replicate (length
           [failing RequestsTimeout, failing RequestsConnectionError, failing JSONDecodeError])
           Critical\<rparr>)"
    by (elim conjE)
  then show ?thesis
    by (simp add: example_service_def numeral_3_eq_3)
qed

text \<open>
  Claim C10. When the response is a success and its body is valid JSON that is
  falsy, \<^verbatim>\<open>_requestData\<close> raises ValueError with the message "Converting
  response to JSON failed"; the cycle is a recoverable fault, not a successful
  cycle: the nine properties are reset and the update index is incremented.
\<close>

theorem falsy_json_recoverable:
  assumes "getStatusUrl (config env) = Inr url"
    and "http_get env (url @ ''state'') = GetReturns True (Some json)"
    and "\<not> truthy F json"
    and "registered s" and "dbusservice s ''/UpdateIndex'' = Some (PInt i)"
  shows "requestData F (http_get env) (url @ ''state'') =
       Inl (ValueError ''Converting response to JSON failed'') \<and>
     cycle_outcome F env s = RecoverableFault \<and>
     update F env s =
       (Inr True,
        s\<lparr>dbusservice := (dbusservice s)
           (''/Pv/V'' \<mapsto> PInt 0, ''/Yield/Power'' \<mapsto> PInt 0, ''/Yield/System'' \<mapsto> PInt 0,
            ''/Yield/User'' \<mapsto> PInt 0, ''/State'' \<mapsto> PInt 0, ''/Dc/0/Voltage'' \<mapsto> PInt 0,
            ''/Dc/0/Current'' \<mapsto> PInt 0, ''/Load/State'' \<mapsto> PBool False, ''/Load/I'' \<mapsto> PInt 0,
            ''/UpdateIndex'' \<mapsto> PInt ((i + 1) mod 256)),
          logged := logged s @ [Critical]\<rparr>)"
proof -
  from assms(2,3) have req: "requestData F (http_get env) (url @ ''state'') =
      Inl (ValueError ''Converting response to JSON failed'')"
    by (simp add: requestData_def)
  with assms(1) have fetch: "getRngBridgeState F env =
      Inl (ValueError ''Converting response to JSON failed'')"
    by (simp add: getRngBridgeState_def)
  have rec: "recoverable (ValueError ''Converting response to JSON failed'')" by simp
  from req outcome_fetch_failed [OF fetch, of s] update_fetch_fault [OF assms(4,5) fetch rec]
  show ?thesis by simp
qed

text \<open>
  The empty object, the empty array, 0 and null.
\<close>

theorem falsy_json_recoverable_witness:
  "map (\<lambda>json. cycle_outcome exact_floats (responding json) example_service)
     [PDict [], PList [], PInt 0, PNone] =
   [RecoverableFault, RecoverableFault, RecoverableFault, RecoverableFault] \<and>
   update exact_floats (responding (PDict [])) example_service =
     (Inr True,
      example_service\<lparr>dbusservice := (dbusservice example_service)
         (''/Pv/V'' \<mapsto> PInt 0, ''/Yield/Power'' \<mapsto> PInt 0, ''/Yield/System'' \<mapsto> PInt 0,
          ''/Yield/User'' \<mapsto> PInt 0, ''/State'' \<mapsto> PInt 0, ''/Dc/0/Voltage'' \<mapsto> PInt 0,
          ''/Dc/0/Current'' \<mapsto> PInt 0, ''/Load/State'' \<mapsto> PBool False, ''/Load/I'' \<mapsto> PInt 0,
          ''/UpdateIndex'' \<mapsto> PInt 0),
        logged := [Critical]\<rparr>)"
proof -
  have url: "getStatusUrl (config (responding json)) = Inr ''http://192.168.1.10/api/''" for json
    by (simp add: getStatusUrl_def cfg_item_def example_config_def responding_def)
  have get: "http_get (responding json) (''http://192.168.1.10/api/'' @ ''state'') =
      GetReturns True (Some json)" for json
    by (simp add: responding_def)
  note f = falsy_json_recoverable [OF url get _ example_registered example_index]
  have "\<not> truthy exact_floats (PDict [])" "\<not> truthy exact_floats (PList [])"
    "\<not> truthy exact_floats (PInt 0)" "\<not> truthy exact_floats PNone"
    by simp_all
  from f [OF this(1)] f [OF this(2)] f [OF this(3)] f [OF this(4)]
  show ?thesis by (simp add: example_service_def)
qed

subsection \<open>The heartbeat timer\<close>

text \<open>
  Claim C9, as the code has it. Whenever the constructor completes, the
  sign-of-life setting has been read as an integer \<open>n\<close> (an empty setting reads
  as 0), and exactly two timers are registered: the update timer with a period
  of 2000 ms and the heartbeat timer with a period of \<open>n * 60 * 1000\<close> ms. No
  value of \<open>n\<close> leaves the heartbeat timer out; for \<open>n = 0\<close> it is registered with
  period 0.
\<close>

theorem heartbeat_timer:
  assumes "init F cfg file version pths = Inr s"
  shows "\<exists>n. getSignOfLifeInterval cfg = Inr n \<and>
     timers s = [(2000, Update), (n * 60 * 1000, SignOfLife)]"
proof -
  let ?blank = "\<lparr>dbusservice = Map.empty, paths = pths, lastUpdate = PNone, timers = [],
      logged = []\<rparr> :: 'a service"
  from init_run [OF assms] obtain d c where
    "run ([logging Debug] @
         map add_mandatory (mandatory_paths F cfg file version d c) @
         map add_initial pths @
         [set_lastUpdate (PInt 0),
          timeout_add (Inr 2000) Update,
          timeout_add
            (case getSignOfLifeInterval cfg of Inl e \<Rightarrow> Inl e | Inr n \<Rightarrow> Inr (n * 60 * 1000))
            SignOfLife]) ?blank = (None, s)"
    by blast
  then obtain s1 s2 s3 where
    1: "run [logging Debug] ?blank = (None, s1)"
    and 2: "run (map add_mandatory (mandatory_paths F cfg file version d c)) s1 = (None, s2)"
    and 3: "run (map add_initial pths) s2 = (None, s3)"
    and 4: "run [set_lastUpdate (PInt 0),
          timeout_add (Inr 2000) Update,
          timeout_add
            (case getSignOfLifeInterval cfg of Inl e \<Rightarrow> Inl e | Inr n \<Rightarrow> Inr (n * 60 * 1000))
            SignOfLife] s3 = (None, s)"
    by (blast dest: run_append_None)
  from 1 have "timers s1 = []" by (auto simp: logging_def)
  moreover from 2 have "timers s2 = timers s1"
    by (rule run_keeps [rotated]) (auto simp: add_mandatory_def dest: add_path_timers)
  moreover from 3 have "timers s3 = timers s2"
    by (rule run_keeps [rotated]) (auto simp: add_initial_def dest: add_path_timers)
  ultimately have "timers s3 = []" by simp
  with 4 show ?thesis
    by (auto simp: set_lastUpdate_def timeout_add_def split: sum.splits)
qed

text \<open>
  An interval of 10 minutes is registered as 600000 ms.
\<close>

theorem heartbeat_timer_witness:
  "(case init exact_floats example_config ''dbus-rngbridge.py'' ''3.8.13'' main_paths of
      Inl e \<Rightarrow> None
    | Inr s \<Rightarrow> Some (timers s)) = Some [(2000, Update), (600000, SignOfLife)]"
proof (cases "init exact_floats example_config ''dbus-rngbridge.py'' ''3.8.13'' main_paths")
  case (Inl e)
  with example_init show ?thesis by simp
next
  case (Inr s)
  from heartbeat_timer [OF Inr] example_interval Inr show ?thesis by simp
qed

text \<open>
  The claim as stated fails at the interval 0: the heartbeat timer is
  registered, with period 0.
\<close>

theorem zero_interval_registers_timer:
  "getSignOfLifeInterval silent_config = Inr 0 \<and>
   (case init exact_floats silent_config ''dbus-rngbridge.py'' ''3.8.13'' main_paths of
      Inl e \<Rightarrow> None
    | Inr s \<Rightarrow> Some (timers s)) = Some [(2000, Update), (0, SignOfLife)]"
proof -
  have "getSignOfLifeInterval silent_config = Inr 0"
    by (simp add: getSignOfLifeInterval_def silent_config_def cfg_item_def py_int_def strip_def
        is_space_def unsigned_def digit_val_def)
  with silent_init show ?thesis by simp
qed

end
